theory Spec2Isabelle
  imports Main "HOL-Library.Sublist"
begin

section \<open>JavaScript values\<close>

text \<open>
  An optional string field of a provider object (\<open>string | null | undefined\<close>).
  Strict equality \<open>===\<close> on such fields is equality of this datatype:
  \<open>undefined === undefined\<close> holds, \<open>undefined === null\<close> does not, and two
  strings are equal when their contents are.
\<close>

datatype jsstr = Undefined | Null | Str string

text \<open>Truthiness of an optional string: only a non-empty string is truthy.\<close>

fun truthy :: "jsstr \<Rightarrow> bool" where
  "truthy (Str s) = (s \<noteq> [])"
| "truthy _ = False"

text \<open>How a template literal \<open>`${x}`\<close> prints such a field.\<close>

fun template :: "jsstr \<Rightarrow> string" where
  "template (Str s) = s"
| "template Null = ''null''"
| "template Undefined = ''undefined''"

text \<open>\<open>String.prototype.includes\<close>: the needle occurs as a contiguous substring.\<close>

definition str_includes :: "string \<Rightarrow> string \<Rightarrow> bool" where
  "str_includes s needle = sublist needle s"

section \<open>Calendar events and the change classifier\<close>

text \<open>
  \<open>calendar_v3.Schema$Event\<close>, restricted to the fields the synchronisation engine reads.
\<close>

record event =
  event_id :: jsstr
  status :: jsstr
  created :: jsstr
  updated :: jsstr

datatype change_type = Created | Updated | Deleted

record calendar_change =
  change_event :: event
  changeType :: change_type

text \<open>\<open>WebhookHandler.determineChangeType\<close>.\<close>

definition determineChangeType :: "event \<Rightarrow> change_type" where
  "determineChangeType ev =
     (if status ev = Str ''cancelled'' then Deleted
      else if created ev = updated ev then Created
      else Updated)"


section \<open>Errors and effects\<close>

text \<open>
  A thrown JavaScript value, with the two properties the retry logic inspects:
  \<open>error.code\<close> (absent, a number or a string; \<open>===\<close> never identifies a string
  with a number) and \<open>error.message\<close>.
\<close>

datatype js_code = NoCode | NumCode int | StrCode string

datatype js_error = JsError (err_code: js_code) (err_message: jsstr)

text \<open>Reading a property of \<open>undefined\<close> or \<open>null\<close>.\<close>

definition type_error :: js_error where
  "type_error = JsError NoCode (Str ''Cannot read properties of undefined'')"

text \<open>
  Milliseconds since the epoch stand for \<open>Date\<close> values and for their ISO renderings.
\<close>

subsection \<open>Tables, requests and the observable world\<close>

text \<open>The \<open>Partial<CalendarConnection>\<close> objects the engine passes to the database.\<close>

record conn_update =
  sync_status :: string
  last_sync_at :: int

text \<open>A row of the \<open>users\<close> table, as selected by \<open>getUserTokens\<close>.\<close>

record user_tokens =
  access_token :: jsstr
  refresh_token :: jsstr
  token_expires_at :: "int option"

text \<open>The credentials answered by \<open>OAuth2Client.refreshAccessToken\<close>.\<close>

record credentials =
  cred_access_token :: jsstr
  cred_refresh_token :: jsstr
  cred_expiry_date :: "int option"

text \<open>The statements handed to \<open>pool.query\<close>.\<close>

datatype db_stmt =
    SelectUserTokens string
  | UpdateUserTokens string string string "int option"
  | UpdateConnection string conn_update
  | SelectSyncToken string string
  | UpsertSyncToken string string "string option"

text \<open>\<open>calendar_v3.Params$Resource$Events$List\<close>, with the parameters the engine sets.\<close>

record list_params =
  calendarId :: string
  showDeleted :: "bool option"
  singleEvents :: "bool option"
  maxResults :: nat
  syncToken :: "string option"
  timeMin :: "int option"
  timeMax :: "int option"
  orderBy :: "string option"
  pageToken :: "string option"

text \<open>The \<open>data\<close> of an \<open>events.list\<close> response.\<close>

record events_response =
  items :: "event list option"
  nextSyncToken :: jsstr
  nextPageToken :: jsstr

text \<open>
  A memory-vault entry: the event id and change type of its metadata; the generated
  content, title and tags are one opaque payload.
\<close>

record memory_entry =
  entry_event_id :: jsstr
  entry_change_type :: change_type
  entry_payload :: string

datatype http_verb = GET | POST | PUT | DELETE

record http_request =
  req_verb :: http_verb
  req_url :: string
  req_body :: "(memory_entry \<times> string) option"

text \<open>
  What \<open>response.json()\<close> gives for a search: it throws, or it is \<open>null\<close> (so that
  reading \<open>.memories\<close> throws), or it is an object whose \<open>memories\<close> property is
  absent or an array of stored memories, each known by its \<open>id\<close>.
\<close>

datatype json_outcome = JsonThrows js_error | JsonNull | JsonObject "jsstr list option"

record http_response =
  resp_ok :: bool
  resp_json :: json_outcome

text \<open>
  The world outside the process: the database tables, the clock, and the log of every
  request sent to a collaborator. \<open>connection_updates\<close> lists the executed updates of
  \<open>user_calendar_connections\<close>, \<open>processed\<close> the invocations of
  \<open>processCalendarChange\<close> in the order of their first log line. The clock is read by
  \<open>new Date()\<close>; it moves while the process sleeps, and the other steps are taken as
  instantaneous.
\<close>

record world =
  clock :: int
  db_log :: "db_stmt list"
  users :: "string \<rightharpoonup> user_tokens"
  connection_updates :: "(string \<times> conn_update) list"
  sync_tokens :: "string \<times> string \<rightharpoonup> string option"
  auth_calls :: nat
  refresh_calls :: nat
  list_calls :: "list_params list"
  calendar_list_calls :: nat
  sleeps :: "nat list"
  processed :: "(string \<times> event \<times> change_type) list"
  http_log :: "http_request list"

text \<open>
  The collaborators' answers. Each is indexed by the number of earlier calls to the same
  collaborator, so any run of the real system is the run of the model under the
  environment that lists the answers the run got. \<open>render\<close> stands for the content and
  tag generation of \<open>convertEventToMemory\<close>, \<open>decodeURIComponent\<close> for the built-in.
  \<open>addDays t n\<close> is the date that \<open>d.setDate(d.getDate() + n)\<close> makes of the date
  \<open>t\<close>: the built-in moves a date by calendar days of the time zone of the process.
\<close>

record env =
  db_at :: "nat \<Rightarrow> js_error option"
  refresh_at :: "nat \<Rightarrow> js_error + credentials"
  events_list_at :: "nat \<Rightarrow> list_params \<Rightarrow> js_error + events_response"
  calendar_list_at :: "nat \<Rightarrow> js_error + string list option"
  fetch_at :: "nat \<Rightarrow> http_request \<Rightarrow> js_error + http_response"
  render :: "event \<Rightarrow> change_type \<Rightarrow> js_error + string"
  decodeURIComponent :: "string \<Rightarrow> js_error + string"
  addDays :: "int \<Rightarrow> int \<Rightarrow> int"
  memoryVaultUrl :: string

text \<open>An asynchronous function: it resolves with a value or rejects with an error.\<close>

type_synonym 'a io = "world \<Rightarrow> (js_error + 'a) \<times> world"

section \<open>The database service\<close>

text \<open>\<open>pool.query\<close>: the statement is logged; the environment says whether it throws.\<close>

definition query :: "env \<Rightarrow> db_stmt \<Rightarrow> world \<Rightarrow> js_error option \<times> world" where
  "query env q s = (db_at env (length (db_log s)), s\<lparr>db_log := db_log s @ [q]\<rparr>)"

text \<open>\<open>DatabaseService.getUserTokens\<close>: a database error is logged and thrown again.\<close>

definition getUserTokens :: "env \<Rightarrow> string \<Rightarrow> user_tokens option io" where
  "getUserTokens env userId s =
     (case query env (SelectUserTokens userId) s of
        (Some e, s1) \<Rightarrow> (Inl e, s1)
      | (None, s1) \<Rightarrow>
          (case users s1 userId of
             None \<Rightarrow> (Inr None, s1)
           | Some row \<Rightarrow> if access_token row = Null then (Inr None, s1) else (Inr (Some row), s1)))"

text \<open>\<open>DatabaseService.updateUserTokens\<close>.\<close>

definition updateUserTokens ::
  "env \<Rightarrow> string \<Rightarrow> string \<Rightarrow> string \<Rightarrow> int option \<Rightarrow> unit io" where
  "updateUserTokens env userId accessToken refreshToken expiresAt s =
     (case query env (UpdateUserTokens userId accessToken refreshToken expiresAt) s of
        (Some e, s1) \<Rightarrow> (Inl e, s1)
      | (None, s1) \<Rightarrow>
          (case users s1 userId of
             None \<Rightarrow> (Inr (), s1)
           | Some row \<Rightarrow>
               (Inr (), s1\<lparr>users := (users s1)(userId \<mapsto>
                  \<lparr>access_token = Str accessToken, refresh_token = Str refreshToken,
                   token_expires_at = expiresAt\<rparr>)\<rparr>)))"

text \<open>\<open>DatabaseService.updateCalendarConnection\<close>: a database error is thrown again.\<close>

definition updateCalendarConnection :: "env \<Rightarrow> string \<Rightarrow> conn_update \<Rightarrow> unit io" where
  "updateCalendarConnection env userId updates s =
     (case query env (UpdateConnection userId updates) s of
        (Some e, s1) \<Rightarrow> (Inl e, s1)
      | (None, s1) \<Rightarrow>
          (Inr (), s1\<lparr>connection_updates := connection_updates s1 @ [(userId, updates)]\<rparr>))"

text \<open>\<open>DatabaseService.getSyncToken\<close>: a database error is logged and read as no token.\<close>

definition getSyncToken :: "env \<Rightarrow> string \<Rightarrow> string \<Rightarrow> world \<Rightarrow> string option \<times> world" where
  "getSyncToken env userId calId s =
     (case query env (SelectSyncToken userId calId) s of
        (Some e, s1) \<Rightarrow> (None, s1)
      | (None, s1) \<Rightarrow>
          (case sync_tokens s1 (userId, calId) of
             None \<Rightarrow> (None, s1)
           | Some tok \<Rightarrow> (tok, s1)))"

text \<open>
  \<open>DatabaseService.updateSyncToken\<close>: an upsert keyed by user and calendar; a database
  error is logged and answered with \<open>false\<close>.
\<close>

definition updateSyncToken ::
  "env \<Rightarrow> string \<Rightarrow> string \<Rightarrow> string option \<Rightarrow> world \<Rightarrow> bool \<times> world" where
  "updateSyncToken env userId calId tok s =
     (case query env (UpsertSyncToken userId calId tok) s of
        (Some e, s1) \<Rightarrow> (False, s1)
      | (None, s1) \<Rightarrow> (True, s1\<lparr>sync_tokens := (sync_tokens s1)((userId, calId) \<mapsto> tok)\<rparr>))"

section \<open>The authentication service\<close>

text \<open>The \<open>catch\<close> block of \<open>refreshUserToken\<close>: mark the connection, answer \<open>null\<close>.\<close>

definition refresh_failed :: "env \<Rightarrow> string \<Rightarrow> bool io" where
  "refresh_failed env userId s =
     (case updateCalendarConnection env userId
             \<lparr>sync_status = ''error'', last_sync_at = clock s\<rparr> s of
        (Inl e, s1) \<Rightarrow> (Inl e, s1)
      | (Inr _, s1) \<Rightarrow> (Inr False, s1))"

text \<open>
  \<open>AuthService.refreshUserToken\<close>; the result is \<open>True\<close> for a client, \<open>False\<close> for
  \<open>null\<close>.
\<close>

definition refreshUserToken :: "env \<Rightarrow> string \<Rightarrow> string \<Rightarrow> bool io" where
  "refreshUserToken env userId refreshToken s =
     (let s1 = s\<lparr>refresh_calls := Suc (refresh_calls s)\<rparr> in
      case refresh_at env (refresh_calls s) of
        Inl e \<Rightarrow> refresh_failed env userId s1
      | Inr cred \<Rightarrow>
          if truthy (cred_access_token cred) then
            (case updateUserTokens env userId (template (cred_access_token cred))
                    (if truthy (cred_refresh_token cred) then template (cred_refresh_token cred)
                     else refreshToken)
                    (case cred_expiry_date cred of
                       None \<Rightarrow> None
                     | Some t \<Rightarrow> if t = 0 then None else Some t) s1 of
               (Inl e, s2) \<Rightarrow> refresh_failed env userId s2
             | (Inr _, s2) \<Rightarrow> (Inr True, s2))
          else (Inr False, s1))"

text \<open>
  \<open>AuthService.getAuthenticatedClient\<close>: every error is caught and answered with
  \<open>null\<close>. The listener it installs on the client rewrites only the \<open>users\<close> table and is
  left out.
\<close>

definition getAuthenticatedClient :: "env \<Rightarrow> string \<Rightarrow> world \<Rightarrow> bool \<times> world" where
  "getAuthenticatedClient env userId s =
     (case
        (case getUserTokens env userId (s\<lparr>auth_calls := Suc (auth_calls s)\<rparr>) of
           (Inl e, s1) \<Rightarrow> (Inl e, s1)
         | (Inr None, s1) \<Rightarrow> (Inr False, s1)
         | (Inr (Some tokens), s1) \<Rightarrow>
             if \<not> truthy (access_token tokens) then (Inr False, s1)
             else if (case token_expires_at tokens of None \<Rightarrow> False | Some t \<Rightarrow> t \<le> clock s1) then
               (if \<not> truthy (refresh_token tokens) then (Inr False, s1)
                else refreshUserToken env userId (template (refresh_token tokens)) s1)
             else (Inr True, s1))
      of (Inl e, s') \<Rightarrow> (False, s')
       | (Inr client, s') \<Rightarrow> (client, s'))"

section \<open>Synchronising one change into the memory vault\<close>

text \<open>The global \<open>fetch\<close>: the request is logged; the environment answers or rejects.\<close>

definition http_fetch :: "env \<Rightarrow> http_request \<Rightarrow> http_response io" where
  "http_fetch env req s = (fetch_at env (length (http_log s)) req, s\<lparr>http_log := http_log s @ [req]\<rparr>)"

text \<open>\<open>MemoryCalendarSync.convertEventToMemory\<close>.\<close>

definition convertEventToMemory :: "env \<Rightarrow> event \<Rightarrow> change_type \<Rightarrow> js_error + memory_entry" where
  "convertEventToMemory env ev ct =
     (case render env ev ct of
        Inl e \<Rightarrow> Inl e
      | Inr payload \<Rightarrow>
          Inr \<lparr>entry_event_id = event_id ev, entry_change_type = ct, entry_payload = payload\<rparr>)"

definition search_url :: "env \<Rightarrow> string \<Rightarrow> jsstr \<Rightarrow> string" where
  "search_url env userId eventId =
     memoryVaultUrl env @ ''/memories/search?user_id='' @ userId @ ''&query=event_id:'' @
       template eventId @ ''&limit=1''"

definition memory_url :: "env \<Rightarrow> jsstr \<Rightarrow> string" where
  "memory_url env memId = memoryVaultUrl env @ ''/memories/'' @ template memId"

text \<open>\<open>MemoryCalendarSync.storeInMemoryVault\<close>.\<close>

definition storeInMemoryVault :: "env \<Rightarrow> string \<Rightarrow> memory_entry \<Rightarrow> world \<Rightarrow> bool \<times> world" where
  "storeInMemoryVault env userId entry s =
     (case http_fetch env \<lparr>req_verb = POST, req_url = memoryVaultUrl env @ ''/memories'',
                            req_body = Some (entry, userId)\<rparr> s of
        (Inl e, s1) \<Rightarrow> (False, s1)
      | (Inr response, s1) \<Rightarrow> (resp_ok response, s1))"

text \<open>\<open>MemoryCalendarSync.updateInMemoryVault\<close>.\<close>

definition updateInMemoryVault :: "env \<Rightarrow> string \<Rightarrow> memory_entry \<Rightarrow> world \<Rightarrow> bool \<times> world" where
  "updateInMemoryVault env userId entry s =
     (case http_fetch env \<lparr>req_verb = GET, req_url = search_url env userId (entry_event_id entry),
                            req_body = None\<rparr> s of
        (Inl e, s1) \<Rightarrow> (False, s1)
      | (Inr searchResponse, s1) \<Rightarrow>
          if resp_ok searchResponse then
            (case resp_json searchResponse of
               JsonThrows e \<Rightarrow> (False, s1)
             | JsonNull \<Rightarrow> (False, s1)
             | JsonObject (Some (existingMemory # _)) \<Rightarrow>
                 (case http_fetch env \<lparr>req_verb = PUT, req_url = memory_url env existingMemory,
                                        req_body = Some (entry, userId)\<rparr> s1 of
                    (Inl e, s2) \<Rightarrow> (False, s2)
                  | (Inr updateResponse, s2) \<Rightarrow>
                      if resp_ok updateResponse then (True, s2)
                      else storeInMemoryVault env userId entry s2)
             | JsonObject _ \<Rightarrow> storeInMemoryVault env userId entry s1)
          else storeInMemoryVault env userId entry s1)"

text \<open>\<open>MemoryCalendarSync.removeFromMemoryVault\<close>.\<close>

definition removeFromMemoryVault :: "env \<Rightarrow> string \<Rightarrow> jsstr \<Rightarrow> world \<Rightarrow> bool \<times> world" where
  "removeFromMemoryVault env userId eventId s =
     (case http_fetch env \<lparr>req_verb = GET, req_url = search_url env userId eventId,
                            req_body = None\<rparr> s of
        (Inl e, s1) \<Rightarrow> (False, s1)
      | (Inr searchResponse, s1) \<Rightarrow>
          if resp_ok searchResponse then
            (case resp_json searchResponse of
               JsonThrows e \<Rightarrow> (False, s1)
             | JsonNull \<Rightarrow> (False, s1)
             | JsonObject (Some (existingMemory # _)) \<Rightarrow>
                 (case http_fetch env \<lparr>req_verb = DELETE, req_url = memory_url env existingMemory,
                                        req_body = None\<rparr> s1 of
                    (Inl e, s2) \<Rightarrow> (False, s2)
                  | (Inr deleteResponse, s2) \<Rightarrow>
                      if resp_ok deleteResponse then (True, s2) else (False, s2))
             | JsonObject _ \<Rightarrow> (True, s1))
          else (False, s1))"

text \<open>
  The body of the \<open>try\<close> block of \<open>processCalendarChange\<close>. The three vault operations
  catch their own errors, so only the conversion can throw here.
\<close>

definition processCalendarChange_body :: "env \<Rightarrow> string \<Rightarrow> event \<Rightarrow> change_type \<Rightarrow> bool io" where
  "processCalendarChange_body env userId calendarEvent ct s =
     (if ct = Deleted then
        (case removeFromMemoryVault env userId (event_id calendarEvent) s of
           (b, s1) \<Rightarrow> (Inr b, s1))
      else
        (case convertEventToMemory env calendarEvent ct of
           Inl e \<Rightarrow> (Inl e, s)
         | Inr memoryEntry \<Rightarrow>
             if ct = Updated then
               (case updateInMemoryVault env userId memoryEntry s of (b, s1) \<Rightarrow> (Inr b, s1))
             else
               (case storeInMemoryVault env userId memoryEntry s of (b, s1) \<Rightarrow> (Inr b, s1))))"

text \<open>
  \<open>MemoryCalendarSync.processCalendarChange\<close>: the \<open>catch\<close> block turns an error into
  the answer \<open>false\<close>.
\<close>

definition processCalendarChange :: "env \<Rightarrow> string \<Rightarrow> event \<Rightarrow> change_type \<Rightarrow> bool io" where
  "processCalendarChange env userId calendarEvent ct s =
     (case processCalendarChange_body env userId calendarEvent ct
             (s\<lparr>processed := processed s @ [(userId, calendarEvent, ct)]\<rparr>) of
        (Inl e, s1) \<Rightarrow> (Inr False, s1)
      | (Inr b, s1) \<Rightarrow> (Inr b, s1))"

section \<open>The webhook handler\<close>

text \<open>\<open>GoogleWebhookHeaders\<close>: each header may be missing from the request.\<close>

record headers =
  resourceId :: jsstr
  resourceUri :: jsstr
  channelId :: jsstr
  channelToken :: jsstr
  channelExpiration :: jsstr

subsection \<open>The calendar of a notification\<close>

text \<open>
  The regular expression \<open>calendars\/([^\/]+)\/events\<close> tried at the start of a string:
  the group is the longest run without a slash, so it is followed by a slash or by the
  end, and no shorter run can be followed by \<open>/events\<close>.
\<close>

definition match_here :: "string \<Rightarrow> string option" where
  "match_here s =
     (if prefix ''calendars/'' s then
        (let r = drop (length ''calendars/'') s;
             seg = takeWhile (\<lambda>c. c \<noteq> CHR ''/'') r;
             after = dropWhile (\<lambda>c. c \<noteq> CHR ''/'') r
         in if seg \<noteq> [] \<and> prefix ''/events'' after then Some seg else None)
      else None)"

text \<open>\<open>String.prototype.match\<close> without the global flag: the leftmost match.\<close>

fun regex_match :: "string \<Rightarrow> string option" where
  "regex_match [] = None"
| "regex_match (c # cs) =
     (case match_here (c # cs) of Some seg \<Rightarrow> Some seg | None \<Rightarrow> regex_match cs)"

text \<open>\<open>WebhookHandler.extractCalendarIdFromResourceUri\<close>.\<close>

definition extractCalendarIdFromResourceUri :: "env \<Rightarrow> jsstr \<Rightarrow> js_error + string" where
  "extractCalendarIdFromResourceUri env uri =
     (case uri of
        Str u \<Rightarrow>
          (case regex_match u of
             Some seg \<Rightarrow> decodeURIComponent env seg
           | None \<Rightarrow> Inr ''primary'')
      | _ \<Rightarrow> Inl type_error)"

subsection \<open>Fetching the changes\<close>

text \<open>\<open>calendar.events.list\<close>.\<close>

definition events_list :: "env \<Rightarrow> list_params \<Rightarrow> events_response io" where
  "events_list env params s =
     (events_list_at env (length (list_calls s)) params, s\<lparr>list_calls := list_calls s @ [params]\<rparr>)"

text \<open>\<open>setTimeout\<close> awaited for \<open>ms\<close> milliseconds.\<close>

definition sleep :: "nat \<Rightarrow> world \<Rightarrow> world" where
  "sleep ms s = s\<lparr>sleeps := sleeps s @ [ms], clock := clock s + int ms\<rparr>"

definition maxRetries :: nat where
  "maxRetries = 3"

definition auth_failed :: "string \<Rightarrow> js_error" where
  "auth_failed userId =
     JsError NoCode (Str (''Failed to get authenticated client for user '' @ userId))"

text \<open>The test of the \<open>catch\<close> block for a rejected sync token.\<close>

definition is_invalid_sync_token :: "js_error \<Rightarrow> bool" where
  "is_invalid_sync_token error =
     (err_code error = NumCode 410 \<or>
      (truthy (err_message error) \<and>
       str_includes (template (err_message error)) ''Sync token is no longer valid''))"

definition incremental_params :: "string \<Rightarrow> list_params" where
  "incremental_params calId =
     \<lparr>calendarId = calId, showDeleted = Some True, singleEvents = Some True, maxResults = 250,
      syncToken = None, timeMin = None, timeMax = None, orderBy = None, pageToken = None\<rparr>"

text \<open>\<open>response.data.items || []\<close>.\<close>

definition response_events :: "events_response \<Rightarrow> event list" where
  "response_events response = (case items response of None \<Rightarrow> [] | Some evs \<Rightarrow> evs)"

definition to_changes :: "events_response \<Rightarrow> calendar_change list" where
  "to_changes response =
     map (\<lambda>ev. \<lparr>change_event = ev, changeType = determineChangeType ev\<rparr>)
       (response_events response)"

text \<open>The \<open>try\<close> block of the loop of \<open>fetchIncrementalChanges\<close>: one attempt.\<close>

definition fetch_attempt :: "env \<Rightarrow> string \<Rightarrow> headers \<Rightarrow> calendar_change list io" where
  "fetch_attempt env userId hdrs s =
     (case getAuthenticatedClient env userId s of
        (authClient, s1) \<Rightarrow>
          if \<not> authClient then (Inl (auth_failed userId), s1)
          else
            (case extractCalendarIdFromResourceUri env (resourceUri hdrs) of
               Inl e \<Rightarrow> (Inl e, s1)
             | Inr calId \<Rightarrow>
                 (case getSyncToken env userId calId s1 of
                    (lastSyncToken, s2) \<Rightarrow>
                      (case events_list env
                              (case lastSyncToken of
                                 None \<Rightarrow> (incremental_params calId)\<lparr>timeMin := Some (addDays env (clock s2) (- 30))\<rparr>
                               | Some tok \<Rightarrow>
                                   if tok \<noteq> [] then (incremental_params calId)\<lparr>syncToken := Some tok\<rparr>
                                   else (incremental_params calId)\<lparr>timeMin := Some (addDays env (clock s2) (- 30))\<rparr>)
                              s2 of
                         (Inl e, s3) \<Rightarrow> (Inl e, s3)
                       | (Inr response, s3) \<Rightarrow>
                           (Inr (to_changes response),
                            if truthy (nextSyncToken response) then
                              snd (updateSyncToken env userId calId
                                     (Some (template (nextSyncToken response))) s3)
                            else s3)))))"

text \<open>
  The loop of \<open>fetchIncrementalChanges\<close>, from the value \<open>attempt\<close> of its counter. An
  error thrown inside the \<open>catch\<close> block leaves the function at once.
\<close>

function fetch_loop :: "env \<Rightarrow> string \<Rightarrow> headers \<Rightarrow> nat \<Rightarrow> calendar_change list io" where
  "fetch_loop env userId hdrs attempt s =
     (if attempt < maxRetries then
        (case fetch_attempt env userId hdrs s of
           (Inr changes, s1) \<Rightarrow> (Inr changes, s1)
         | (Inl error, s1) \<Rightarrow>
             if is_invalid_sync_token error then
               (case extractCalendarIdFromResourceUri env (resourceUri hdrs) of
                  Inl e \<Rightarrow> (Inl e, s1)
                | Inr calId \<Rightarrow>
                    if attempt + 1 < maxRetries then
                      fetch_loop env userId hdrs (attempt + 1)
                        (snd (updateSyncToken env userId calId None s1))
                    else (Inl error, snd (updateSyncToken env userId calId None s1)))
             else if attempt + 1 \<ge> maxRetries then (Inl error, s1)
             else fetch_loop env userId hdrs (attempt + 1) (sleep (2 ^ (attempt + 1) * 1000) s1))
      else (Inr [], s))"
  by pat_completeness auto
termination
  by (relation "measure (\<lambda>(env, userId, hdrs, attempt, s). maxRetries - attempt)") auto

text \<open>\<open>WebhookHandler.fetchIncrementalChanges\<close>.\<close>

definition fetchIncrementalChanges :: "env \<Rightarrow> string \<Rightarrow> headers \<Rightarrow> calendar_change list io" where
  "fetchIncrementalChanges env userId hdrs s = fetch_loop env userId hdrs 0 s"

subsection \<open>One orchestration run\<close>

text \<open>The loop of \<open>doProcessWebhook\<close> over the fetched changes, counting the successes.\<close>

fun apply_changes :: "env \<Rightarrow> string \<Rightarrow> calendar_change list \<Rightarrow> nat \<Rightarrow> nat io" where
  "apply_changes env userId [] successCount s = (Inr successCount, s)"
| "apply_changes env userId (change # changes) successCount s =
     (case processCalendarChange env userId (change_event change) (changeType change) s of
        (Inl e, s1) \<Rightarrow> (Inl e, s1)
      | (Inr success, s1) \<Rightarrow>
          apply_changes env userId changes (if success then Suc successCount else successCount) s1)"

text \<open>\<open>WebhookHandler.scheduleFullSync\<close>: a failed update is logged, nothing is thrown.\<close>

definition scheduleFullSync :: "env \<Rightarrow> string \<Rightarrow> unit io" where
  "scheduleFullSync env userId s =
     (case updateCalendarConnection env userId
             \<lparr>sync_status = ''scheduled_full_sync'', last_sync_at = clock s\<rparr> s of
        (_, s1) \<Rightarrow> (Inr (), s1))"

text \<open>The \<open>try\<close> block of \<open>doProcessWebhook\<close>.\<close>

definition doProcessWebhook_body :: "env \<Rightarrow> string \<Rightarrow> headers \<Rightarrow> unit io" where
  "doProcessWebhook_body env userId hdrs s =
     (case fetchIncrementalChanges env userId hdrs s of
        (Inl e, s1) \<Rightarrow> (Inl e, s1)
      | (Inr changes, s1) \<Rightarrow>
          if length changes = 0 then (Inr (), s1)
          else
            (case apply_changes env userId changes 0 s1 of
               (Inl e, s2) \<Rightarrow> (Inl e, s2)
             | (Inr successCount, s2) \<Rightarrow>
                 updateCalendarConnection env userId
                   \<lparr>sync_status = (if successCount = length changes then ''synced'' else ''partial_sync''),
                    last_sync_at = clock s2\<rparr> s2))"

text \<open>\<open>WebhookHandler.doProcessWebhook\<close>.\<close>

definition doProcessWebhook :: "env \<Rightarrow> string \<Rightarrow> headers \<Rightarrow> unit io" where
  "doProcessWebhook env userId hdrs s =
     (case doProcessWebhook_body env userId hdrs s of
        (Inr u, s1) \<Rightarrow> (Inr u, s1)
      | (Inl error, s1) \<Rightarrow>
          (case updateCalendarConnection env userId
                  \<lparr>sync_status = ''error'', last_sync_at = clock s1\<rparr> s1 of
             (Inl e, s2) \<Rightarrow> (Inl e, s2)
           | (Inr _, s2) \<Rightarrow> scheduleFullSync env userId s2))"

subsection \<open>The full synchronisation\<close>

text \<open>\<open>calendar.calendarList.list\<close>: the ids of the items, when there are items.\<close>

definition calendarList_list :: "env \<Rightarrow> string list option io" where
  "calendarList_list env s =
     (calendar_list_at env (calendar_list_calls s),
      s\<lparr>calendar_list_calls := Suc (calendar_list_calls s)\<rparr>)"

text \<open>
  The loop over the events of one page. The counter \<open>totalSynced\<close> is a variable of
  \<open>performFullSync\<close> and keeps its value when an error leaves the loop, so it is
  answered beside the error.
\<close>

fun apply_created ::
  "env \<Rightarrow> string \<Rightarrow> event list \<Rightarrow> nat \<Rightarrow> world \<Rightarrow> (js_error option \<times> nat) \<times> world" where
  "apply_created env userId [] totalSynced s = ((None, totalSynced), s)"
| "apply_created env userId (ev # evs) totalSynced s =
     (case processCalendarChange env userId ev Created s of
        (Inl e, s1) \<Rightarrow> ((Some e, totalSynced), s1)
      | (Inr success, s1) \<Rightarrow>
          apply_created env userId evs (if success then Suc totalSynced else totalSynced) s1)"

text \<open>
  The \<open>do ... while (pageToken)\<close> loop. The provider may answer a next page for ever,
  so the loop runs on fuel: \<open>None\<close> says that \<open>fuel\<close> pages did not end it.
\<close>

fun sync_pages ::
  "nat \<Rightarrow> env \<Rightarrow> string \<Rightarrow> string \<Rightarrow> int \<Rightarrow> int \<Rightarrow> string option \<Rightarrow> nat \<Rightarrow> world \<Rightarrow>
     ((js_error option \<times> nat) \<times> world) option" where
  "sync_pages 0 env userId calId pastDate futureDate tok totalSynced s = None"
| "sync_pages (Suc fuel) env userId calId pastDate futureDate tok totalSynced s =
     (case events_list env
             \<lparr>calendarId = calId, showDeleted = None, singleEvents = Some True, maxResults = 250,
              syncToken = None, timeMin = Some pastDate, timeMax = Some futureDate,
              orderBy = Some ''startTime'', pageToken = tok\<rparr> s of
        (Inl e, s1) \<Rightarrow> Some ((Some e, totalSynced), s1)
      | (Inr response, s1) \<Rightarrow>
          (case apply_created env userId (response_events response) totalSynced s1 of
             ((Some e, total1), s2) \<Rightarrow> Some ((Some e, total1), s2)
           | ((None, total1), s2) \<Rightarrow>
               if truthy (nextPageToken response) then
                 sync_pages fuel env userId calId pastDate futureDate
                   (Some (template (nextPageToken response))) total1 s2
               else Some ((None, total1), s2)))"

text \<open>The \<open>try\<close> block for one calendar: the pages, then the call for a fresh token.\<close>

definition sync_calendar ::
  "nat \<Rightarrow> env \<Rightarrow> string \<Rightarrow> string \<Rightarrow> nat \<Rightarrow> world \<Rightarrow> ((js_error option \<times> nat) \<times> world) option" where
  "sync_calendar fuel env userId calId totalSynced s =
     (case sync_pages fuel env userId calId (addDays env (clock s) (- 30)) (addDays env (clock s) 365) None
             totalSynced s of
        None \<Rightarrow> None
      | Some ((Some e, total1), s1) \<Rightarrow> Some ((Some e, total1), s1)
      | Some ((None, total1), s1) \<Rightarrow>
          (case events_list env
                  \<lparr>calendarId = calId, showDeleted = None, singleEvents = None, maxResults = 1,
                   syncToken = None, timeMin = None, timeMax = None, orderBy = None,
                   pageToken = None\<rparr> s1 of
             (Inl e, s2) \<Rightarrow> Some ((Some e, total1), s2)
           | (Inr syncResponse, s2) \<Rightarrow>
               Some ((None, total1),
                 if truthy (nextSyncToken syncResponse) then
                   snd (updateSyncToken env userId calId
                          (Some (template (nextSyncToken syncResponse))) s2)
                 else s2)))"

text \<open>The loop over the calendars: the error of a calendar is logged and dropped.\<close>

fun sync_calendars ::
  "nat \<Rightarrow> env \<Rightarrow> string \<Rightarrow> string list \<Rightarrow> nat \<Rightarrow> world \<Rightarrow> (nat \<times> world) option" where
  "sync_calendars fuel env userId [] totalSynced s = Some (totalSynced, s)"
| "sync_calendars fuel env userId (calId # calIds) totalSynced s =
     (case sync_calendar fuel env userId calId totalSynced s of
        None \<Rightarrow> None
      | Some ((_, total1), s1) \<Rightarrow> sync_calendars fuel env userId calIds total1 s1)"

text \<open>The outer \<open>try\<close> block of \<open>performFullSync\<close>.\<close>

definition performFullSync_body ::
  "nat \<Rightarrow> env \<Rightarrow> string \<Rightarrow> world \<Rightarrow> ((js_error + bool) \<times> world) option" where
  "performFullSync_body fuel env userId s =
     (case getAuthenticatedClient env userId s of
        (authClient, s1) \<Rightarrow>
          if \<not> authClient then Some (Inl (auth_failed userId), s1)
          else
            (case calendarList_list env s1 of
               (Inl e, s2) \<Rightarrow> Some (Inl e, s2)
             | (Inr None, s2) \<Rightarrow> Some (Inr True, s2)
             | (Inr (Some calIds), s2) \<Rightarrow>
                 (case sync_calendars fuel env userId calIds 0 s2 of
                    None \<Rightarrow> None
                  | Some (totalSynced, s3) \<Rightarrow>
                      (case updateCalendarConnection env userId
                              \<lparr>sync_status = ''synced'', last_sync_at = clock s3\<rparr> s3 of
                         (Inl e, s4) \<Rightarrow> Some (Inl e, s4)
                       | (Inr _, s4) \<Rightarrow> Some (Inr True, s4)))))"

text \<open>\<open>WebhookHandler.performFullSync\<close>.\<close>

definition performFullSync ::
  "nat \<Rightarrow> env \<Rightarrow> string \<Rightarrow> world \<Rightarrow> ((js_error + bool) \<times> world) option" where
  "performFullSync fuel env userId s =
     (case performFullSync_body fuel env userId s of
        None \<Rightarrow> None
      | Some (Inr b, s1) \<Rightarrow> Some (Inr b, s1)
      | Some (Inl error, s1) \<Rightarrow>
          (case updateCalendarConnection env userId
                  \<lparr>sync_status = ''error'', last_sync_at = clock s1\<rparr> s1 of
             (Inl e, s2) \<Rightarrow> Some (Inl e, s2)
           | (Inr _, s2) \<Rightarrow> Some (Inr False, s2)))"

subsection \<open>The registry of runs in flight\<close>

text \<open>
  \<open>processWebhookAsync\<close> runs in two uninterrupted pieces: from its call to its
  \<open>await\<close>, and from the settling of the awaited run through the \<open>finally\<close> block.
  The handler state is the key set of the map \<open>processingQueue\<close> together with the
  runs of \<open>doProcessWebhook\<close> that were started and have not settled.
\<close>

record dispatcher =
  processingQueue :: "string set"
  in_flight :: "(string \<times> headers) list"

definition processingKey :: "string \<Rightarrow> headers \<Rightarrow> string" where
  "processingKey userId hdrs = userId @ ''_'' @ template (channelId hdrs)"

datatype dispatch_event =
    Trigger string headers
  | Settled string headers "js_error option"

definition dispatcher_init :: dispatcher where
  "dispatcher_init = \<lparr>processingQueue = {}, in_flight = []\<rparr>"

text \<open>
  One piece of \<open>processWebhookAsync\<close>. A run can settle only while it is in flight;
  \<open>None\<close> marks an event that cannot happen in the state.
\<close>

fun dispatch_step :: "dispatcher \<Rightarrow> dispatch_event \<Rightarrow> dispatcher option" where
  "dispatch_step d (Trigger userId hdrs) =
     (if processingKey userId hdrs \<in> processingQueue d then Some d
      else Some (d\<lparr>in_flight := in_flight d @ [(userId, hdrs)],
                   processingQueue := insert (processingKey userId hdrs) (processingQueue d)\<rparr>))"
| "dispatch_step d (Settled userId hdrs outcome) =
     (if (userId, hdrs) \<in> set (in_flight d) then
        Some (d\<lparr>in_flight := remove1 (userId, hdrs) (in_flight d),
                 processingQueue := processingQueue d - {processingKey userId hdrs}\<rparr>)
      else None)"

fun dispatch_run :: "dispatcher \<Rightarrow> dispatch_event list \<Rightarrow> dispatcher option" where
  "dispatch_run d [] = Some d"
| "dispatch_run d (ev # evs) =
     (case dispatch_step d ev of None \<Rightarrow> None | Some d1 \<Rightarrow> dispatch_run d1 evs)"

text \<open>
  The key under which a run in flight is registered, and the invariant of the registry:
  the runs in flight have distinct keys, and these keys are the keys of the map.
\<close>

definition run_key :: "string \<times> headers \<Rightarrow> string" where
  "run_key r = processingKey (fst r) (snd r)"

definition registry_inv :: "dispatcher \<Rightarrow> bool" where
  "registry_inv d = (distinct (map run_key (in_flight d)) \<and>
                     processingQueue d = set (map run_key (in_flight d)))"

section \<open>Describing runs\<close>

subsection \<open>The answers to the changes of a run\<close>

text \<open>
  What \<open>processCalendarChange\<close> answers to each change of a list, the changes being
  applied one after the other, each in the world the one before has left; the world
  after the last; and the number of the answers \<open>true\<close>.
\<close>

fun answers :: "env \<Rightarrow> string \<Rightarrow> calendar_change list \<Rightarrow> world \<Rightarrow> (js_error + bool) list" where
  "answers env userId [] s = []"
| "answers env userId (c # cs) s =
     fst (processCalendarChange env userId (change_event c) (changeType c) s) #
     answers env userId cs (snd (processCalendarChange env userId (change_event c) (changeType c) s))"

fun applied_world :: "env \<Rightarrow> string \<Rightarrow> calendar_change list \<Rightarrow> world \<Rightarrow> world" where
  "applied_world env userId [] s = s"
| "applied_world env userId (c # cs) s =
     applied_world env userId cs
       (snd (processCalendarChange env userId (change_event c) (changeType c) s))"

definition successes :: "env \<Rightarrow> string \<Rightarrow> calendar_change list \<Rightarrow> world \<Rightarrow> nat" where
  "successes env userId changes s = length (filter (\<lambda>a. a = Inr True) (answers env userId changes s))"

subsection \<open>The pages of a provider\<close>

text \<open>
  The request for a page of the window from \<open>lo\<close> to \<open>hi\<close> of a calendar, and the
  request for a single result that follows the last page.
\<close>

definition page_request :: "string \<Rightarrow> int \<Rightarrow> int \<Rightarrow> string option \<Rightarrow> list_params" where
  "page_request calId lo hi tok =
     \<lparr>calendarId = calId, showDeleted = None, singleEvents = Some True, maxResults = 250,
      syncToken = None, timeMin = Some lo, timeMax = Some hi, orderBy = Some ''startTime'',
      pageToken = tok\<rparr>"

definition refresh_request :: "string \<Rightarrow> list_params" where
  "refresh_request calId =
     \<lparr>calendarId = calId, showDeleted = None, singleEvents = None, maxResults = 1,
      syncToken = None, timeMin = None, timeMax = None, orderBy = None, pageToken = None\<rparr>"

text \<open>The page token that follows the given pages, starting from \<open>tok\<close>.\<close>

fun token_after :: "string option \<Rightarrow> events_response list \<Rightarrow> string option" where
  "token_after tok [] = tok"
| "token_after tok (r # rs) = token_after (Some (template (nextPageToken r))) rs"

text \<open>The requests that walk through the given pages.\<close>

fun page_requests ::
  "string \<Rightarrow> int \<Rightarrow> int \<Rightarrow> string option \<Rightarrow> events_response list \<Rightarrow> list_params list" where
  "page_requests calId lo hi tok [] = []"
| "page_requests calId lo hi tok (r # rs) =
     page_request calId lo hi tok #
     page_requests calId lo hi (Some (template (nextPageToken r))) rs"

text \<open>
  The provider answers the page requests for a calendar, from its call number \<open>n\<close> on
  and from the page token \<open>tok\<close>, with the given pages, every one of which names a next
  page.
\<close>

fun pages_open ::
  "env \<Rightarrow> nat \<Rightarrow> string \<Rightarrow> int \<Rightarrow> int \<Rightarrow> string option \<Rightarrow> events_response list \<Rightarrow> bool" where
  "pages_open env n calId lo hi tok [] = True"
| "pages_open env n calId lo hi tok (r # rs) =
     (events_list_at env n (page_request calId lo hi tok) = Inr r \<and>
      truthy (nextPageToken r) \<and>
      pages_open env (Suc n) calId lo hi (Some (template (nextPageToken r))) rs)"

text \<open>
  What the provider does with one calendar. \<open>Healthy pages r\<close>: it answers the pages,
  the last of which names no next page and the others do, and answers \<open>r\<close> to the request
  that follows them. \<open>Refresh_fails pages e\<close>: the same pages, and that request throws
  \<open>e\<close>. \<open>Page_fails pages e\<close>: it answers the pages, each naming a next page, and the
  request for the page after them throws \<open>e\<close>.
\<close>

datatype calendar_plan =
    Healthy "events_response list" events_response
  | Refresh_fails "events_response list" js_error
  | Page_fails "events_response list" js_error

fun plan_pages :: "calendar_plan \<Rightarrow> events_response list" where
  "plan_pages (Healthy pages r) = pages"
| "plan_pages (Refresh_fails pages e) = pages"
| "plan_pages (Page_fails pages e) = pages"

definition pages_closed ::
  "env \<Rightarrow> nat \<Rightarrow> string \<Rightarrow> int \<Rightarrow> int \<Rightarrow> events_response list \<Rightarrow> bool" where
  "pages_closed env n calId lo hi pages =
     (pages \<noteq> [] \<and> pages_open env n calId lo hi None (butlast pages) \<and>
      events_list_at env (n + length (butlast pages))
        (page_request calId lo hi (token_after None (butlast pages))) = Inr (last pages) \<and>
      \<not> truthy (nextPageToken (last pages)))"

fun plan_from :: "env \<Rightarrow> nat \<Rightarrow> int \<Rightarrow> int \<Rightarrow> string \<times> calendar_plan \<Rightarrow> bool" where
  "plan_from env n lo hi (calId, Healthy pages r) =
     (pages_closed env n calId lo hi pages \<and>
      events_list_at env (n + length pages) (refresh_request calId) = Inr r)"
| "plan_from env n lo hi (calId, Refresh_fails pages e) =
     (pages_closed env n calId lo hi pages \<and>
      events_list_at env (n + length pages) (refresh_request calId) = Inl e)"
| "plan_from env n lo hi (calId, Page_fails pages e) =
     (pages_open env n calId lo hi None pages \<and>
      events_list_at env (n + length pages)
        (page_request calId lo hi (token_after None pages)) = Inl e)"

text \<open>The provider deals with the calendars of a list one after the other.\<close>

fun plans_from :: "env \<Rightarrow> nat \<Rightarrow> int \<Rightarrow> int \<Rightarrow> (string \<times> calendar_plan) list \<Rightarrow> bool" where
  "plans_from env n lo hi [] = True"
| "plans_from env n lo hi (p # ps) =
     (plan_from env n lo hi p \<and> plans_from env (Suc (n + length (plan_pages (snd p)))) lo hi ps)"

text \<open>The list requests a calendar with this plan is to receive.\<close>

fun plan_requests :: "int \<Rightarrow> int \<Rightarrow> string \<times> calendar_plan \<Rightarrow> list_params list" where
  "plan_requests lo hi (calId, Healthy pages r) =
     page_requests calId lo hi None pages @ [refresh_request calId]"
| "plan_requests lo hi (calId, Refresh_fails pages e) =
     page_requests calId lo hi None pages @ [refresh_request calId]"
| "plan_requests lo hi (calId, Page_fails pages e) =
     page_requests calId lo hi None pages @ [page_request calId lo hi (token_after None pages)]"

text \<open>The events of the pages the provider has answered.\<close>

definition plan_events :: "string \<times> calendar_plan \<Rightarrow> event list" where
  "plan_events p = concat (map response_events (plan_pages (snd p)))"

text \<open>The sync tokens a user's calendars are to be given.\<close>

fun plan_upserts :: "string \<Rightarrow> string \<times> calendar_plan \<Rightarrow> db_stmt list" where
  "plan_upserts userId (calId, Healthy pages r) =
     (if truthy (nextSyncToken r)
      then [UpsertSyncToken userId calId (Some (template (nextSyncToken r)))] else [])"
| "plan_upserts userId (calId, Refresh_fails pages e) = []"
| "plan_upserts userId (calId, Page_fails pages e) = []"

text \<open>
  The request that stores an event in the vault as a created one: none when the
  conversion of the event throws.
\<close>

definition created_request :: "env \<Rightarrow> string \<Rightarrow> event \<Rightarrow> http_request list" where
  "created_request env userId ev =
     (case render env ev Created of
        Inl e \<Rightarrow> []
      | Inr payload \<Rightarrow>
          [\<lparr>req_verb = POST, req_url = memoryVaultUrl env @ ''/memories'',
            req_body = Some (\<lparr>entry_event_id = event_id ev, entry_change_type = Created,
                              entry_payload = payload\<rparr>, userId)\<rparr>])"

text \<open>
  The token store after the database has been given the statements, from its statement
  number \<open>n\<close> on: an upsert it executes sets the token, one it refuses changes nothing.
\<close>

fun store_after ::
  "env \<Rightarrow> nat \<Rightarrow> db_stmt list \<Rightarrow> (string \<times> string \<rightharpoonup> string option) \<Rightarrow>
     (string \<times> string \<rightharpoonup> string option)" where
  "store_after env n [] m = m"
| "store_after env n (UpsertSyncToken userId calId tok # qs) m =
     store_after env (Suc n) qs (if db_at env n = None then m((userId, calId) \<mapsto> tok) else m)"
| "store_after env n (q # qs) m = store_after env (Suc n) qs m"

text \<open>
  What a run of the full synchronisation over the calendars of the plans has done: it has
  processed every event of every answered page as a created one and sent the vault one
  request for each, it has sent the provider the requests of the plans and the database
  their upserts, in this order, and it has left the clock and the status updates alone.
\<close>

definition plans_done ::
  "env \<Rightarrow> string \<Rightarrow> int \<Rightarrow> int \<Rightarrow> (string \<times> calendar_plan) list \<Rightarrow> world \<Rightarrow> world \<Rightarrow> bool" where
  "plans_done env u lo hi plans s s' =
     (processed s' = processed s @ map (\<lambda>ev. (u, ev, Created)) (concat (map plan_events plans)) \<and>
      http_log s' = http_log s @
        concat (map (created_request env u) (concat (map plan_events plans))) \<and>
      list_calls s' = list_calls s @ concat (map (plan_requests lo hi) plans) \<and>
      db_log s' = db_log s @ concat (map (plan_upserts u) plans) \<and>
      sync_tokens s' =
        store_after env (length (db_log s)) (concat (map (plan_upserts u) plans)) (sync_tokens s) \<and>
      clock s' = clock s \<and> connection_updates s' = connection_updates s)"
section \<open>Example runs\<close>

text \<open>Concrete collaborators and inputs, on which the properties below are exercised.\<close>

definition ex_tokens :: user_tokens where
  "ex_tokens = \<lparr>access_token = Str ''at-1'', refresh_token = Str ''rt-1'', token_expires_at = None\<rparr>"

definition ex_world :: world where
  "ex_world =
     \<lparr>clock = 1700000000000, db_log = [], users = [''u1'' \<mapsto> ex_tokens], connection_updates = [],
      sync_tokens = [(''u1'', ''primary'') \<mapsto> Some ''tok-1''], auth_calls = 0, refresh_calls = 0,
      list_calls = [], calendar_list_calls = 0, sleeps = [], processed = [], http_log = []\<rparr>"

definition ex_hdrs :: headers where
  "ex_hdrs =
     \<lparr>resourceId = Str ''res-1'',
      resourceUri = Str ''https://www.googleapis.com/calendar/v3/calendars/primary/events'',
      channelId = Str ''ch-1'', channelToken = Undefined, channelExpiration = Undefined\<rparr>"

definition ex_event :: "string \<Rightarrow> event" where
  "ex_event i =
     \<lparr>event_id = Str i, status = Str ''confirmed'', created = Str ''2024-01-01T00:00:00Z'',
      updated = Str ''2024-01-01T00:00:00Z''\<rparr>"

text \<open>
  A database that executes every statement, a provider that answers one event, a vault that
  accepts every request, and a process in UTC, where \<open>setDate\<close> moves a date by
  86 400 000 ms a day.
\<close>

definition ex_env :: env where
  "ex_env =
     \<lparr>db_at = (\<lambda>n. None),
      refresh_at = (\<lambda>n. Inl (JsError NoCode (Str ''invalid_grant''))),
      events_list_at = (\<lambda>n p. Inr \<lparr>items = Some [ex_event ''e1''], nextSyncToken = Str ''tok-2'',
                                     nextPageToken = Undefined\<rparr>),
      calendar_list_at = (\<lambda>n. Inr (Some [''primary''])),
      fetch_at = (\<lambda>n req. Inr \<lparr>resp_ok = True, resp_json = JsonObject (Some [])\<rparr>),
      render = (\<lambda>ev ct. Inr ''content''),
      decodeURIComponent = Inr,
      addDays = (\<lambda>t n. t + n * 86400000),
      memoryVaultUrl = ''http://localhost:8000''\<rparr>"

definition ex_unavailable :: js_error where
  "ex_unavailable = JsError (NumCode 503) (Str ''Backend Error'')"


definition ex_env_down :: env where
  "ex_env_down = ex_env\<lparr>events_list_at := \<lambda>n p. Inl ex_unavailable\<rparr>"

definition ex_change :: calendar_change where
  "ex_change = \<lparr>change_event = ex_event ''e1'', changeType = Created\<rparr>"




definition ex_env_quiet :: env where
  "ex_env_quiet = ex_env\<lparr>events_list_at := \<lambda>n p.
      Inr \<lparr>items = Some [], nextSyncToken = Str ''tok-2'', nextPageToken = Undefined\<rparr>\<rparr>"

definition ex_db_error :: js_error where
  "ex_db_error = JsError (StrCode ''57P01'') (Str ''terminating connection'')"


definition ex_env_partial :: env where
  "ex_env_partial = ex_env\<lparr>
      events_list_at := \<lambda>n p. Inr \<lparr>items = Some [ex_event ''e1'', ex_event ''e2''],
                                     nextSyncToken = Str ''tok-2'', nextPageToken = Undefined\<rparr>,
      fetch_at := \<lambda>n req. Inr \<lparr>resp_ok = (n = 0), resp_json = JsonObject (Some [])\<rparr>\<rparr>"

definition ex_env_partial_first :: env where
  "ex_env_partial_first = ex_env\<lparr>
      events_list_at := \<lambda>n p. Inr \<lparr>items = Some [ex_event ''e1'', ex_event ''e2''],
                                     nextSyncToken = Str ''tok-2'', nextPageToken = Undefined\<rparr>,
      fetch_at := \<lambda>n req. Inr \<lparr>resp_ok = (n = 1), resp_json = JsonObject (Some [])\<rparr>\<rparr>"

definition ex_env_down_refused :: env where
  "ex_env_down_refused = ex_env_down\<lparr>db_at := \<lambda>n. if n = 6 then Some ex_db_error else None\<rparr>"

definition ex_registry :: dispatcher where
  "ex_registry = \<lparr>processingQueue = {''u1_ch-1''}, in_flight = [(''u1'', ex_hdrs)]\<rparr>"

definition ex_numbered :: "nat \<Rightarrow> event" where
  "ex_numbered n = ex_event (''ev-'' @ replicate n (CHR ''i''))"

definition ex_page1 :: events_response where
  "ex_page1 = \<lparr>items = Some (map ex_numbered [0..<250]), nextSyncToken = Undefined,
               nextPageToken = Str ''page-2''\<rparr>"

definition ex_page2 :: events_response where
  "ex_page2 = \<lparr>items = Some (map ex_numbered [250..<260]), nextSyncToken = Undefined,
               nextPageToken = Undefined\<rparr>"

definition ex_refresh :: events_response where
  "ex_refresh = \<lparr>items = Some [ex_numbered 0], nextSyncToken = Str ''tok-9'',
                 nextPageToken = Undefined\<rparr>"

definition ex_page_home :: events_response where
  "ex_page_home = \<lparr>items = Some [ex_event ''h1''], nextSyncToken = Undefined,
                   nextPageToken = Undefined\<rparr>"

definition ex_refresh_home :: events_response where
  "ex_refresh_home = \<lparr>items = Some [ex_event ''h1''], nextSyncToken = Str ''tok-h'',
                      nextPageToken = Undefined\<rparr>"

definition ex_env_three :: env where
  "ex_env_three = ex_env\<lparr>
      calendar_list_at := \<lambda>n. Inr (Some [''work'', ''primary'', ''home'']),
      events_list_at := \<lambda>n p.
        if n = 0 then Inl ex_unavailable
        else if n = 1 then Inr ex_page1
        else if n = 2 then Inr ex_page2
        else if n = 3 then Inr ex_refresh
        else if n = 4 then Inr ex_page_home
        else Inr ex_refresh_home\<rparr>"

definition ex_plans :: "(string \<times> calendar_plan) list" where
  "ex_plans =
     [(''work'', Page_fails [] ex_unavailable),
      (''primary'', Healthy [ex_page1, ex_page2] ex_refresh),
      (''home'', Healthy [ex_page_home] ex_refresh_home)]"

section \<open>Properties\<close>

subsection \<open>The change classifier\<close>

text \<open>
  C4. The classifier answers Deleted for every event whose status is "cancelled",
  whatever its timestamps are; Created for every other event whose created and updated
  timestamps are equal; and Updated for every remaining event.
\<close>

theorem determineChangeType_cases:
  "(status ev = Str ''cancelled'' \<longrightarrow> determineChangeType ev = Deleted) \<and>
   (status ev \<noteq> Str ''cancelled'' \<and> created ev = updated ev \<longrightarrow> determineChangeType ev = Created) \<and>
   (status ev \<noteq> Str ''cancelled'' \<and> created ev \<noteq> updated ev \<longrightarrow> determineChangeType ev = Updated)"
  by (simp add: determineChangeType_def)

theorem determineChangeType_cases_witness:
  "determineChangeType \<lparr>event_id = Str ''e1'', status = Str ''cancelled'',
       created = Str ''2024-01-01T00:00:00Z'', updated = Str ''2024-01-02T00:00:00Z''\<rparr> = Deleted \<and>
   determineChangeType \<lparr>event_id = Str ''e2'', status = Str ''confirmed'',
       created = Str ''2024-01-01T00:00:00Z'', updated = Str ''2024-01-01T00:00:00Z''\<rparr> = Created \<and>
   determineChangeType \<lparr>event_id = Str ''e3'', status = Str ''confirmed'',
       created = Str ''2024-01-01T00:00:00Z'', updated = Str ''2024-01-02T00:00:00Z''\<rparr> = Updated"
  using determineChangeType_cases [of "\<lparr>event_id = Str ''e1'', status = Str ''cancelled'',
       created = Str ''2024-01-01T00:00:00Z'', updated = Str ''2024-01-02T00:00:00Z''\<rparr>"]
    determineChangeType_cases [of "\<lparr>event_id = Str ''e2'', status = Str ''confirmed'',
       created = Str ''2024-01-01T00:00:00Z'', updated = Str ''2024-01-01T00:00:00Z''\<rparr>"]
    determineChangeType_cases [of "\<lparr>event_id = Str ''e3'', status = Str ''confirmed'',
       created = Str ''2024-01-01T00:00:00Z'', updated = Str ''2024-01-02T00:00:00Z''\<rparr>"]
  by simp

subsection \<open>Synchronising one change\<close>

text \<open>
  C9. Deleting an event that has no entry in the memory vault succeeds: when the lookup
  answers successfully and finds nothing, \<open>removeFromMemoryVault\<close> answers \<open>true\<close>
  and sends nothing but the lookup, so the vault is left as it was, and so does
  \<open>processCalendarChange\<close> for a deleted event. Deleting the same event again, with the
  lookup answering in the same way, succeeds again without any other request.
\<close>

theorem removeFromMemoryVault_absent_succeeds:
  assumes "fetch_at env (length (http_log s))
             \<lparr>req_verb = GET, req_url = search_url env userId eventId, req_body = None\<rparr> = Inr resp"
    and "resp_ok resp"
    and "resp_json resp \<in> {JsonObject None, JsonObject (Some [])}"
  shows "fst (removeFromMemoryVault env userId eventId s) = True \<and>
         http_log (snd (removeFromMemoryVault env userId eventId s)) = http_log s @
            [\<lparr>req_verb = GET, req_url = search_url env userId eventId, req_body = None\<rparr>] \<and>
         (event_id ev = eventId \<longrightarrow>
            fst (processCalendarChange env userId ev Deleted s) = Inr True) \<and>
         (fetch_at env (Suc (length (http_log s)))
             \<lparr>req_verb = GET, req_url = search_url env userId eventId, req_body = None\<rparr> = Inr resp2 \<and>
          resp_ok resp2 \<and> resp_json resp2 \<in> {JsonObject None, JsonObject (Some [])} \<longrightarrow>
            fst (removeFromMemoryVault env userId eventId
                   (snd (removeFromMemoryVault env userId eventId s))) = True \<and>
            http_log (snd (removeFromMemoryVault env userId eventId
                   (snd (removeFromMemoryVault env userId eventId s)))) = http_log s @
              [\<lparr>req_verb = GET, req_url = search_url env userId eventId, req_body = None\<rparr>,
               \<lparr>req_verb = GET, req_url = search_url env userId eventId, req_body = None\<rparr>])"
  using assms
  by (auto simp: removeFromMemoryVault_def http_fetch_def processCalendarChange_def
      processCalendarChange_body_def)

theorem removeFromMemoryVault_absent_succeeds_witness:
  "fst (removeFromMemoryVault ex_env ''u1'' (Str ''gone'') ex_world) = True \<and>
   map req_verb (http_log (snd (removeFromMemoryVault ex_env ''u1'' (Str ''gone'') ex_world))) = [GET] \<and>
   fst (processCalendarChange ex_env ''u1'' (ex_event ''gone'') Deleted ex_world) = Inr True \<and>
   fst (removeFromMemoryVault ex_env ''u1'' (Str ''gone'')
          (snd (removeFromMemoryVault ex_env ''u1'' (Str ''gone'') ex_world))) = True \<and>
   map req_verb (http_log (snd (removeFromMemoryVault ex_env ''u1'' (Str ''gone'')
          (snd (removeFromMemoryVault ex_env ''u1'' (Str ''gone'') ex_world))))) = [GET, GET]"
  using removeFromMemoryVault_absent_succeeds [where env = ex_env and s = ex_world
      and userId = "''u1''" and eventId = "Str ''gone''" and ev = "ex_event ''gone''"
      and resp = "\<lparr>resp_ok = True, resp_json = JsonObject (Some [])\<rparr>"
      and ?resp2.0 = "\<lparr>resp_ok = True, resp_json = JsonObject (Some [])\<rparr>"]
  by (simp add: ex_env_def ex_world_def ex_event_def)










subsection \<open>Fetching the changes\<close>

lemma updateCalendarConnection_frame:
  assumes "updateCalendarConnection env u upd s = (r, s')"
  shows "sync_tokens s' = sync_tokens s \<and> list_calls s' = list_calls s \<and> sleeps s' = sleeps s \<and>
         clock s' = clock s \<and> http_log s' = http_log s \<and> processed s' = processed s \<and>
         auth_calls s' = auth_calls s \<and> calendar_list_calls s' = calendar_list_calls s"
  using assms by (auto simp: updateCalendarConnection_def query_def split: option.splits)

lemma refresh_failed_frame:
  assumes "refresh_failed env u s = (r, s')"
  shows "sync_tokens s' = sync_tokens s \<and> list_calls s' = list_calls s \<and> sleeps s' = sleeps s \<and>
         clock s' = clock s \<and> http_log s' = http_log s \<and> processed s' = processed s \<and>
         auth_calls s' = auth_calls s \<and> calendar_list_calls s' = calendar_list_calls s"
  using assms by (auto simp: refresh_failed_def updateCalendarConnection_def query_def split: option.splits)

lemma updateUserTokens_frame:
  assumes "updateUserTokens env u a b c s = (r, s')"
  shows "sync_tokens s' = sync_tokens s \<and> list_calls s' = list_calls s \<and> sleeps s' = sleeps s \<and>
         clock s' = clock s \<and> http_log s' = http_log s \<and> processed s' = processed s \<and>
         auth_calls s' = auth_calls s \<and> calendar_list_calls s' = calendar_list_calls s"
  using assms by (auto simp: updateUserTokens_def query_def split: option.splits)

lemma getUserTokens_frame:
  assumes "getUserTokens env u s = (r, s')"
  shows "sync_tokens s' = sync_tokens s \<and> list_calls s' = list_calls s \<and> sleeps s' = sleeps s \<and>
         clock s' = clock s \<and> http_log s' = http_log s \<and> processed s' = processed s \<and>
         auth_calls s' = auth_calls s \<and> calendar_list_calls s' = calendar_list_calls s"
  using assms by (auto simp: getUserTokens_def query_def split: option.splits if_splits)

lemma refreshUserToken_frame:
  assumes "refreshUserToken env u t s = (r, s')"
  shows "sync_tokens s' = sync_tokens s \<and> list_calls s' = list_calls s \<and> sleeps s' = sleeps s \<and>
         clock s' = clock s \<and> http_log s' = http_log s \<and> processed s' = processed s \<and>
         auth_calls s' = auth_calls s \<and> calendar_list_calls s' = calendar_list_calls s"
  using assms
  by (auto simp: refreshUserToken_def Let_def split: sum.splits if_splits prod.splits
      dest!: refresh_failed_frame updateUserTokens_frame)

lemma getAuthenticatedClient_frame:
  assumes "getAuthenticatedClient env u s = (b, s')"
  shows "sync_tokens s' = sync_tokens s \<and> list_calls s' = list_calls s \<and> sleeps s' = sleeps s \<and>
         clock s' = clock s \<and> http_log s' = http_log s \<and> processed s' = processed s \<and>
         auth_calls s' = Suc (auth_calls s) \<and> calendar_list_calls s' = calendar_list_calls s"
  using assms
  by (auto simp: getAuthenticatedClient_def split: sum.splits if_splits prod.splits option.splits
      dest!: getUserTokens_frame refreshUserToken_frame)

lemma getSyncToken_frame:
  assumes "getSyncToken env u c s = (r, s')"
  shows "s' = s\<lparr>db_log := db_log s @ [SelectSyncToken u c]\<rparr> \<and>
         (sync_tokens s (u, c) \<in> {None, Some None} \<longrightarrow> r = None)"
  using assms by (auto simp: getSyncToken_def query_def split: option.splits)

lemma getSyncToken_cleared:
  assumes "getSyncToken env u c s = (r, s')" and "sync_tokens s (u, c) \<in> {None, Some None}"
  shows "r = None"
  using assms by (auto simp: getSyncToken_def query_def split: option.splits)

lemma updateSyncToken_effect:
  "snd (updateSyncToken env u c tok s) =
     (if db_at env (length (db_log s)) = None
      then s\<lparr>db_log := db_log s @ [UpsertSyncToken u c tok], sync_tokens := (sync_tokens s)((u, c) \<mapsto> tok)\<rparr>
      else s\<lparr>db_log := db_log s @ [UpsertSyncToken u c tok]\<rparr>)"
  by (auto simp: updateSyncToken_def query_def split: option.splits)



lemma fetch_attempt_success:
  assumes "fetch_attempt env u h s = (Inr changes, s')"
  shows "\<exists>calId response.
           extractCalendarIdFromResourceUri env (resourceUri h) = Inr calId \<and>
           list_calls s' \<noteq> [] \<and> butlast (list_calls s') = list_calls s \<and>
           events_list_at env (length (list_calls s)) (last (list_calls s')) = Inr response \<and>
           changes = to_changes response \<and>
           (truthy (nextSyncToken response) \<longrightarrow>
              db_log s' \<noteq> [] \<and>
              last (db_log s') = UpsertSyncToken u calId (Some (template (nextSyncToken response))) \<and>
              (db_at env (length (db_log s') - 1) = None \<longrightarrow>
                 sync_tokens s' (u, calId) = Some (Some (template (nextSyncToken response)))))"
  using assms
  by (auto simp: fetch_attempt_def events_list_def updateSyncToken_effect
      split: sum.splits if_splits prod.splits option.splits
      dest!: getAuthenticatedClient_frame getSyncToken_frame)


declare fetch_loop.simps [simp del]

lemma sleep_simps [simp]:
  "auth_calls (sleep n s) = auth_calls s" "list_calls (sleep n s) = list_calls s"
  "sync_tokens (sleep n s) = sync_tokens s" "sleeps (sleep n s) = sleeps s @ [n]"
  "db_log (sleep n s) = db_log s" "connection_updates (sleep n s) = connection_updates s"
  "clock (sleep n s) = clock s + int n"
  by (simp_all add: sleep_def)

lemma updateSyncToken_frame [simp]:
  "auth_calls (snd (updateSyncToken env u c tok s)) = auth_calls s"
  "list_calls (snd (updateSyncToken env u c tok s)) = list_calls s"
  "sleeps (snd (updateSyncToken env u c tok s)) = sleeps s"
  "clock (snd (updateSyncToken env u c tok s)) = clock s"
  "connection_updates (snd (updateSyncToken env u c tok s)) = connection_updates s"
  "db_log (snd (updateSyncToken env u c tok s)) = db_log s @ [UpsertSyncToken u c tok]"
  by (simp_all add: updateSyncToken_effect)




lemma fetch_loop_success:
  "k < maxRetries \<Longrightarrow> fetch_loop env u h k s = (Inr changes, s') \<Longrightarrow>
   \<exists>s0. fetch_attempt env u h s0 = (Inr changes, s')"
proof (induction env u h k s rule: fetch_loop.induct)
  case (1 env u h attempt s)
  note lt = \<open>attempt < maxRetries\<close>
  note res = \<open>fetch_loop env u h attempt s = (Inr changes, s')\<close>
  obtain r s1 where att: "fetch_attempt env u h s = (r, s1)" by (cases "fetch_attempt env u h s")
  show ?case
  proof (cases r)
    case (Inr cs)
    then have "fetch_loop env u h attempt s = (Inr cs, s1)"
      using lt att by (simp add: fetch_loop.simps[of env u h attempt s])
    with res att Inr show ?thesis by auto
  next
    case (Inl e)
    show ?thesis
    proof (cases "is_invalid_sync_token e")
      case inv: True
      show ?thesis
      proof (cases "extractCalendarIdFromResourceUri env (resourceUri h)")
        case (Inl e')
        then have "fetch_loop env u h attempt s = (Inl e', s1)"
          using lt att \<open>r = Inl e\<close> inv by (simp add: fetch_loop.simps[of env u h attempt s])
        with res show ?thesis by simp
      next
        case (Inr calId)
        let ?s2 = "snd (updateSyncToken env u calId None s1)"
        show ?thesis
        proof (cases "attempt + 1 < maxRetries")
          case more: True
          have eq: "fetch_loop env u h attempt s = fetch_loop env u h (attempt + 1) ?s2"
            using lt att \<open>r = Inl e\<close> inv Inr more
            by (simp add: fetch_loop.simps[of env u h attempt s])
          from "1.IH"(1)[OF lt att[symmetric] \<open>r = Inl e\<close> inv Inr more more] res eq
          show ?thesis by simp
        next
          case False
          then have "fetch_loop env u h attempt s = (Inl e, ?s2)"
            using lt att \<open>r = Inl e\<close> inv Inr
            by (simp add: fetch_loop.simps[of env u h attempt s])
          with res show ?thesis by simp
        qed
      qed
    next
      case ninv: False
      show ?thesis
      proof (cases "attempt + 1 \<ge> maxRetries")
        case True
        then have "fetch_loop env u h attempt s = (Inl e, s1)"
          using lt att \<open>r = Inl e\<close> ninv
          by (simp add: fetch_loop.simps[of env u h attempt s])
        with res show ?thesis by simp
      next
        case False
        have eq: "fetch_loop env u h attempt s =
                    fetch_loop env u h (attempt + 1) (sleep (2 ^ (attempt + 1) * 1000) s1)"
          using lt att \<open>r = Inl e\<close> ninv False
          by (simp add: fetch_loop.simps[of env u h attempt s])
        from False have more: "attempt + 1 < maxRetries" by simp
        from "1.IH"(2)[OF lt att[symmetric] \<open>r = Inl e\<close> ninv False more] res eq
        show ?thesis by simp
      qed
    qed
  qed
qed



text \<open>
  C7. When the fetch returns, the answer of its last provider call is the one whose
  events it returns, and if that answer carries a next sync token then the last statement
  the fetch gave to the database is the upsert of this token for the user and the
  calendar, so the store holds the token whenever the database executed the statement.
  The number of events in the answer plays no part.
\<close>

theorem fetchIncrementalChanges_persists_token:
  assumes "fetchIncrementalChanges env u h s = (Inr changes, s')"
  shows "\<exists>calId response.
           extractCalendarIdFromResourceUri env (resourceUri h) = Inr calId \<and>
           list_calls s' \<noteq> [] \<and>
           events_list_at env (length (list_calls s') - 1) (last (list_calls s')) = Inr response \<and>
           changes = to_changes response \<and>
           (truthy (nextSyncToken response) \<longrightarrow>
              db_log s' \<noteq> [] \<and>
              last (db_log s') = UpsertSyncToken u calId (Some (template (nextSyncToken response))) \<and>
              (db_at env (length (db_log s') - 1) = None \<longrightarrow>
                 sync_tokens s' (u, calId) = Some (Some (template (nextSyncToken response)))))"
proof -
  from assms obtain s0 where "fetch_attempt env u h s0 = (Inr changes, s')"
    using fetch_loop_success[of 0 env u h s changes s']
    by (auto simp: fetchIncrementalChanges_def maxRetries_def)
  from fetch_attempt_success[OF this] obtain calId response where
    f: "extractCalendarIdFromResourceUri env (resourceUri h) = Inr calId"
      "list_calls s' \<noteq> []" "butlast (list_calls s') = list_calls s0"
      "events_list_at env (length (list_calls s0)) (last (list_calls s')) = Inr response"
      "changes = to_changes response"
      "truthy (nextSyncToken response) \<longrightarrow>
              db_log s' \<noteq> [] \<and>
              last (db_log s') = UpsertSyncToken u calId (Some (template (nextSyncToken response))) \<and>
              (db_at env (length (db_log s') - 1) = None \<longrightarrow>
                 sync_tokens s' (u, calId) = Some (Some (template (nextSyncToken response))))"
    by (elim exE conjE) (rule that)
  from f(3) have "length (list_calls s0) = length (list_calls s') - 1"
    by (metis length_butlast)
  with f show ?thesis by metis
qed

theorem fetchIncrementalChanges_persists_token_witness:
  "fst (fetchIncrementalChanges ex_env_quiet ''u1'' ex_hdrs ex_world) = Inr [] \<and>
   last (db_log (snd (fetchIncrementalChanges ex_env_quiet ''u1'' ex_hdrs ex_world))) =
     UpsertSyncToken ''u1'' ''primary'' (Some ''tok-2'') \<and>
   sync_tokens (snd (fetchIncrementalChanges ex_env_quiet ''u1'' ex_hdrs ex_world)) (''u1'', ''primary'') =
     Some (Some ''tok-2'')"
proof -
  let ?r = "fetchIncrementalChanges ex_env_quiet ''u1'' ex_hdrs ex_world"
  have r: "fst ?r = Inr []" by code_simp
  then have "?r = (Inr [], snd ?r)" by (simp add: prod_eq_iff)
  from fetchIncrementalChanges_persists_token[OF this] obtain calId response where
    f: "extractCalendarIdFromResourceUri ex_env_quiet (resourceUri ex_hdrs) = Inr calId"
      "list_calls (snd ?r) \<noteq> []"
      "events_list_at ex_env_quiet (length (list_calls (snd ?r)) - 1) (last (list_calls (snd ?r))) = Inr response"
      "[] = to_changes response"
      "truthy (nextSyncToken response) \<longrightarrow>
         db_log (snd ?r) \<noteq> [] \<and>
         last (db_log (snd ?r)) = UpsertSyncToken ''u1'' calId (Some (template (nextSyncToken response))) \<and>
         (db_at ex_env_quiet (length (db_log (snd ?r)) - 1) = None \<longrightarrow>
            sync_tokens (snd ?r) (''u1'', calId) = Some (Some (template (nextSyncToken response))))"
    by (elim exE conjE) (rule that)
  have "extractCalendarIdFromResourceUri ex_env_quiet (resourceUri ex_hdrs) = Inr ''primary''"
    by code_simp
  with f(1) have c: "calId = ''primary''" by simp
  from f(3) have resp: "response = \<lparr>items = Some [], nextSyncToken = Str ''tok-2'', nextPageToken = Undefined\<rparr>"
    by (simp add: ex_env_quiet_def)
  have db: "db_at ex_env_quiet (length (db_log (snd ?r)) - 1) = None"
    by (simp add: ex_env_quiet_def ex_env_def)
  from f(5) c resp db r show ?thesis by simp
qed




subsection \<open>One orchestration run\<close>

lemma storeInMemoryVault_frame:
  assumes "storeInMemoryVault env u m s = (b, s')"
  shows "db_log s' = db_log s \<and> connection_updates s' = connection_updates s \<and> clock s' = clock s \<and>
         sync_tokens s' = sync_tokens s \<and> list_calls s' = list_calls s \<and> processed s' = processed s"
  using assms by (auto simp: storeInMemoryVault_def http_fetch_def split: sum.splits)

lemma updateInMemoryVault_frame:
  assumes "updateInMemoryVault env u m s = (b, s')"
  shows "db_log s' = db_log s \<and> connection_updates s' = connection_updates s \<and> clock s' = clock s \<and>
         sync_tokens s' = sync_tokens s \<and> list_calls s' = list_calls s \<and> processed s' = processed s"
  using assms
  by (auto simp: updateInMemoryVault_def http_fetch_def
      split: sum.splits if_splits json_outcome.splits option.splits list.splits
      dest!: storeInMemoryVault_frame)

lemma removeFromMemoryVault_frame:
  assumes "removeFromMemoryVault env u i s = (b, s')"
  shows "db_log s' = db_log s \<and> connection_updates s' = connection_updates s \<and> clock s' = clock s \<and>
         sync_tokens s' = sync_tokens s \<and> list_calls s' = list_calls s \<and> processed s' = processed s"
  using assms
  by (auto simp: removeFromMemoryVault_def http_fetch_def
      split: sum.splits if_splits json_outcome.splits option.splits list.splits)

lemma processCalendarChange_frame:
  assumes "processCalendarChange env u ev ct s = (r, s')"
  shows "(\<exists>b. r = Inr b) \<and> 
         db_log s' = db_log s \<and> connection_updates s' = connection_updates s \<and> clock s' = clock s \<and>
         sync_tokens s' = sync_tokens s \<and> list_calls s' = list_calls s \<and>
         processed s' = processed s @ [(u, ev, ct)]"
  using assms
  by (auto simp: processCalendarChange_def processCalendarChange_body_def
      split: sum.splits if_splits prod.splits
      dest!: storeInMemoryVault_frame updateInMemoryVault_frame removeFromMemoryVault_frame)

lemma apply_changes_frame:
  "\<exists>k s'. apply_changes env u changes n s = (Inr k, s') \<and> n \<le> k \<and> k \<le> n + length changes \<and>
     db_log s' = db_log s \<and> connection_updates s' = connection_updates s \<and> clock s' = clock s \<and>
     sync_tokens s' = sync_tokens s \<and> list_calls s' = list_calls s"
proof (induction changes arbitrary: n s)
  case Nil
  then show ?case by simp
next
  case (Cons c cs)
  obtain r s1 where p: "processCalendarChange env u (change_event c) (changeType c) s = (r, s1)"
    by (cases "processCalendarChange env u (change_event c) (changeType c) s")
  from processCalendarChange_frame[OF p] obtain b where r: "r = Inr b" and
    fr: "db_log s1 = db_log s" "connection_updates s1 = connection_updates s" "clock s1 = clock s"
      "sync_tokens s1 = sync_tokens s" "list_calls s1 = list_calls s"
    by auto
  from Cons.IH[of "if b then Suc n else n" s1] obtain k s' where
    "apply_changes env u cs (if b then Suc n else n) s1 = (Inr k, s')"
    "(if b then Suc n else n) \<le> k" "k \<le> (if b then Suc n else n) + length cs"
    "db_log s' = db_log s1" "connection_updates s' = connection_updates s1" "clock s' = clock s1"
    "sync_tokens s' = sync_tokens s1" "list_calls s' = list_calls s1"
    by blast
  then show ?case using p r fr by (auto split: if_splits)
qed

lemma updateCalendarConnection_ok:
  "db_at env (length (db_log s)) = None \<Longrightarrow>
   updateCalendarConnection env u upd s =
     (Inr (), s\<lparr>db_log := db_log s @ [UpdateConnection u upd],
                connection_updates := connection_updates s @ [(u, upd)]\<rparr>)"
  by (simp add: updateCalendarConnection_def query_def)

lemma doProcessWebhook_empty:
  assumes "fetchIncrementalChanges env u h s = (Inr [], s1)"
  shows "doProcessWebhook env u h s = (Inr (), s1)"
  using assms by (simp add: doProcessWebhook_def doProcessWebhook_body_def)

lemma doProcessWebhook_applied:
  assumes "fetchIncrementalChanges env u h s = (Inr changes, s1)" and "changes \<noteq> []"
    and "apply_changes env u changes 0 s1 = (Inr k, s2)"
    and "db_at env (length (db_log s1)) = None"
  shows "doProcessWebhook env u h s =
           (Inr (), s2\<lparr>db_log := db_log s1 @ [UpdateConnection u
                \<lparr>sync_status = (if k = length changes then ''synced'' else ''partial_sync''),
                 last_sync_at = clock s1\<rparr>],
              connection_updates := connection_updates s1 @ [(u,
                \<lparr>sync_status = (if k = length changes then ''synced'' else ''partial_sync''),
                 last_sync_at = clock s1\<rparr>)]\<rparr>)"
proof -
  from apply_changes_frame[of env u changes 0 s1] assms(3)
  have fr: "db_log s2 = db_log s1" "connection_updates s2 = connection_updates s1" "clock s2 = clock s1"
    by auto
  then have "db_at env (length (db_log s2)) = None" using assms(4) by simp
  from updateCalendarConnection_ok[OF this] show ?thesis
    using assms fr by (simp add: doProcessWebhook_def doProcessWebhook_body_def)
qed

lemma doProcessWebhook_failed:
  assumes "fetchIncrementalChanges env u h s = (Inl e, s1)"
    and "db_at env (length (db_log s1)) = None"
    and "db_at env (Suc (length (db_log s1))) = None"
  shows "doProcessWebhook env u h s =
           (Inr (), s1\<lparr>db_log := db_log s1 @
                [UpdateConnection u \<lparr>sync_status = ''error'', last_sync_at = clock s1\<rparr>,
                 UpdateConnection u \<lparr>sync_status = ''scheduled_full_sync'', last_sync_at = clock s1\<rparr>],
              connection_updates := connection_updates s1 @
                [(u, \<lparr>sync_status = ''error'', last_sync_at = clock s1\<rparr>),
                 (u, \<lparr>sync_status = ''scheduled_full_sync'', last_sync_at = clock s1\<rparr>)]\<rparr>)"
  using assms
  by (simp add: doProcessWebhook_def doProcessWebhook_body_def scheduleFullSync_def
      updateCalendarConnection_ok)

lemma apply_changes_answers:
  "apply_changes env u changes n s =
     (Inr (n + successes env u changes s), applied_world env u changes s)"
proof (induction changes arbitrary: n s)
  case Nil
  then show ?case by (simp add: successes_def)
next
  case (Cons c cs)
  obtain r s1 where p: "processCalendarChange env u (change_event c) (changeType c) s = (r, s1)"
    by (cases "processCalendarChange env u (change_event c) (changeType c) s")
  from processCalendarChange_frame[OF p] obtain b where r: "r = Inr b" by auto
  show ?case using Cons.IH[of "if b then Suc n else n" s1] p r
    by (simp add: successes_def)
qed

lemma length_answers [simp]: "length (answers env u changes s) = length changes"
  by (induction changes arbitrary: s) simp_all

lemma successes_le: "successes env u changes s \<le> length changes"
  unfolding successes_def using length_filter_le[of _ "answers env u changes s"] by simp

lemma applied_world_frame:
  "db_log (applied_world env u changes s) = db_log s \<and>
   connection_updates (applied_world env u changes s) = connection_updates s \<and>
   clock (applied_world env u changes s) = clock s"
  using apply_changes_frame[of env u changes 0 s] by (auto simp: apply_changes_answers)

lemma doProcessWebhook_error_refused:
  assumes "fetchIncrementalChanges env u h s = (Inl e, s1)"
    and "db_at env (length (db_log s1)) = Some e'"
  shows "doProcessWebhook env u h s =
           (Inl e', s1\<lparr>db_log := db_log s1 @
              [UpdateConnection u \<lparr>sync_status = ''error'', last_sync_at = clock s1\<rparr>]\<rparr>)"
  using assms
  by (simp add: doProcessWebhook_def doProcessWebhook_body_def updateCalendarConnection_def query_def)

lemma doProcessWebhook_error_written:
  assumes "fetchIncrementalChanges env u h s = (Inl e, s1)"
    and "db_at env (length (db_log s1)) = None"
  shows "fst (doProcessWebhook env u h s) = Inr () \<and>
         db_log (snd (doProcessWebhook env u h s)) = db_log s1 @
           [UpdateConnection u \<lparr>sync_status = ''error'', last_sync_at = clock s1\<rparr>,
            UpdateConnection u \<lparr>sync_status = ''scheduled_full_sync'', last_sync_at = clock s1\<rparr>] \<and>
         connection_updates (snd (doProcessWebhook env u h s)) = connection_updates s1 @
           (u, \<lparr>sync_status = ''error'', last_sync_at = clock s1\<rparr>) #
           (if db_at env (Suc (length (db_log s1))) = None
            then [(u, \<lparr>sync_status = ''scheduled_full_sync'', last_sync_at = clock s1\<rparr>)] else [])"
  using assms
  by (auto simp: doProcessWebhook_def doProcessWebhook_body_def scheduleFullSync_def
      updateCalendarConnection_def query_def split: option.splits)

text \<open>
  C1, as the code has it. Let a run fetch \<open>N > 0\<close> changes and let \<open>K\<close> be the number
  of them to which \<open>processCalendarChange\<close> answers \<open>true\<close>. Then \<open>K \<le> N\<close>, and
  when the database executes the update the run leaves the world in which all the changes
  are applied, with the status \<open>synced\<close> if \<open>K = N\<close> and \<open>partial_sync\<close> if \<open>K < N\<close>
  written with the time of the write as last-sync time. A run whose fetch throws gives
  the database the status \<open>error\<close> and, when the database executes that update, the
  marker \<open>scheduled_full_sync\<close>, each written when the database executes it, with the time
  of the write; when the database refuses the \<open>error\<close> update the run rejects and no
  status is written.
\<close>

theorem doProcessWebhook_terminal_status:
  "(fetchIncrementalChanges env u h s = (Inr changes, s1) \<and> changes \<noteq> [] \<and>
    db_at env (length (db_log s1)) = None \<longrightarrow>
      successes env u changes s1 \<le> length changes \<and>
      doProcessWebhook env u h s =
        (Inr (), (applied_world env u changes s1)
           \<lparr>db_log := db_log s1 @ [UpdateConnection u
               \<lparr>sync_status = (if successes env u changes s1 = length changes
                                then ''synced'' else ''partial_sync''),
                last_sync_at = clock s1\<rparr>],
            connection_updates := connection_updates s1 @ [(u,
               \<lparr>sync_status = (if successes env u changes s1 = length changes
                                then ''synced'' else ''partial_sync''),
                last_sync_at = clock s1\<rparr>)]\<rparr>)) \<and>
   (fetchIncrementalChanges env u h s = (Inl e, s1) \<and> db_at env (length (db_log s1)) = None \<longrightarrow>
      fst (doProcessWebhook env u h s) = Inr () \<and>
      db_log (snd (doProcessWebhook env u h s)) = db_log s1 @
        [UpdateConnection u \<lparr>sync_status = ''error'', last_sync_at = clock s1\<rparr>,
         UpdateConnection u \<lparr>sync_status = ''scheduled_full_sync'', last_sync_at = clock s1\<rparr>] \<and>
      connection_updates (snd (doProcessWebhook env u h s)) = connection_updates s1 @
        (u, \<lparr>sync_status = ''error'', last_sync_at = clock s1\<rparr>) #
        (if db_at env (Suc (length (db_log s1))) = None
         then [(u, \<lparr>sync_status = ''scheduled_full_sync'', last_sync_at = clock s1\<rparr>)] else [])) \<and>
   (fetchIncrementalChanges env u h s = (Inl e, s1) \<and> db_at env (length (db_log s1)) = Some e' \<longrightarrow>
      doProcessWebhook env u h s =
        (Inl e', s1\<lparr>db_log := db_log s1 @
           [UpdateConnection u \<lparr>sync_status = ''error'', last_sync_at = clock s1\<rparr>]\<rparr>))"
proof -
  have a: "doProcessWebhook env u h s =
        (Inr (), (applied_world env u changes s1)
           \<lparr>db_log := db_log s1 @ [UpdateConnection u
               \<lparr>sync_status = (if successes env u changes s1 = length changes
                                then ''synced'' else ''partial_sync''),
                last_sync_at = clock s1\<rparr>],
            connection_updates := connection_updates s1 @ [(u,
               \<lparr>sync_status = (if successes env u changes s1 = length changes
                                then ''synced'' else ''partial_sync''),
                last_sync_at = clock s1\<rparr>)]\<rparr>)"
    if "fetchIncrementalChanges env u h s = (Inr changes, s1)" "changes \<noteq> []"
      "db_at env (length (db_log s1)) = None"
    using doProcessWebhook_applied[OF that(1,2) _ that(3), of "successes env u changes s1"
        "applied_world env u changes s1"]
    by (simp add: apply_changes_answers)
  show ?thesis
    using a successes_le[of env u changes s1] doProcessWebhook_error_written[of env u h s e s1]
      doProcessWebhook_error_refused[of env u h s e s1 e']
    by blast
qed

theorem doProcessWebhook_terminal_status_witness:
  "map snd (connection_updates (snd (doProcessWebhook ex_env ''u1'' ex_hdrs ex_world))) =
     [\<lparr>sync_status = ''synced'', last_sync_at = 1700000000000\<rparr>] \<and>
   map snd (connection_updates (snd (doProcessWebhook ex_env_partial ''u1'' ex_hdrs ex_world))) =
     [\<lparr>sync_status = ''partial_sync'', last_sync_at = 1700000000000\<rparr>] \<and>
   map snd (connection_updates (snd (doProcessWebhook ex_env_partial_first ''u1'' ex_hdrs ex_world))) =
     [\<lparr>sync_status = ''partial_sync'', last_sync_at = 1700000000000\<rparr>] \<and>
   map snd (connection_updates (snd (doProcessWebhook ex_env_down ''u1'' ex_hdrs ex_world))) =
     [\<lparr>sync_status = ''error'', last_sync_at = 1700000006000\<rparr>,
      \<lparr>sync_status = ''scheduled_full_sync'', last_sync_at = 1700000006000\<rparr>] \<and>
   fst (doProcessWebhook ex_env_down_refused ''u1'' ex_hdrs ex_world) = Inl ex_db_error \<and>
   connection_updates (snd (doProcessWebhook ex_env_down_refused ''u1'' ex_hdrs ex_world)) = []"
proof -
  let ?f = "fetchIncrementalChanges ex_env ''u1'' ex_hdrs ex_world"
  let ?fp = "fetchIncrementalChanges ex_env_partial ''u1'' ex_hdrs ex_world"
  let ?fq = "fetchIncrementalChanges ex_env_partial_first ''u1'' ex_hdrs ex_world"
  let ?cs = "[ex_change, \<lparr>change_event = ex_event ''e2'', changeType = Created\<rparr>]"
  let ?fd = "fetchIncrementalChanges ex_env_down ''u1'' ex_hdrs ex_world"
  let ?fr = "fetchIncrementalChanges ex_env_down_refused ''u1'' ex_hdrs ex_world"
  have "fst ?f = Inr [ex_change]" by code_simp
  then have f: "?f = (Inr [ex_change], snd ?f)" by (simp add: prod_eq_iff)
  have "fst ?fp = Inr ?cs" by code_simp
  then have fp: "?fp = (Inr ?cs, snd ?fp)" by (simp add: prod_eq_iff)
  have "fst ?fq = Inr ?cs" by code_simp
  then have fq: "?fq = (Inr ?cs, snd ?fq)" by (simp add: prod_eq_iff)
  have "fst ?fd = Inl ex_unavailable" by code_simp
  then have fd: "?fd = (Inl ex_unavailable, snd ?fd)" by (simp add: prod_eq_iff)
  have "fst ?fr = Inl ex_unavailable" by code_simp
  then have fr: "?fr = (Inl ex_unavailable, snd ?fr)" by (simp add: prod_eq_iff)
  have db: "\<And>n. db_at ex_env n = None" "\<And>n. db_at ex_env_partial n = None"
    "\<And>n. db_at ex_env_partial_first n = None" "\<And>n. db_at ex_env_down n = None"
    by (simp_all add: ex_env_def ex_env_partial_def ex_env_partial_first_def ex_env_down_def)
  have dr: "db_at ex_env_down_refused (length (db_log (snd ?fr))) = Some ex_db_error"
    by code_simp
  have c: "connection_updates (snd ?f) = []" "clock (snd ?f) = 1700000000000"
    "connection_updates (snd ?fp) = []" "clock (snd ?fp) = 1700000000000"
    "connection_updates (snd ?fq) = []" "clock (snd ?fq) = 1700000000000"
    "connection_updates (snd ?fd) = []" "clock (snd ?fd) = 1700000006000"
    "connection_updates (snd ?fr) = []"
    by code_simp+
  have k: "successes ex_env ''u1'' [ex_change] (snd ?f) = 1"
    "successes ex_env_partial ''u1'' ?cs (snd ?fp) = 1"
    "successes ex_env_partial_first ''u1'' ?cs (snd ?fq) = 1"
    by code_simp+
  note T = doProcessWebhook_terminal_status
  have A: "map snd (connection_updates (snd (doProcessWebhook ex_env ''u1'' ex_hdrs ex_world))) =
     [\<lparr>sync_status = ''synced'', last_sync_at = 1700000000000\<rparr>]"
    using T [where env = ex_env and u = "''u1''" and h = ex_hdrs and s = ex_world
        and changes = "[ex_change]" and ?s1.0 = "snd ?f" and e = ex_unavailable and e' = ex_db_error,
        THEN conjunct1, THEN mp, OF conjI[OF f conjI[OF _ db(1)]]]
    by (simp add: k c)
  have B: "map snd (connection_updates (snd (doProcessWebhook ex_env_partial ''u1'' ex_hdrs ex_world))) =
     [\<lparr>sync_status = ''partial_sync'', last_sync_at = 1700000000000\<rparr>]"
    using T [where env = ex_env_partial and u = "''u1''" and h = ex_hdrs and s = ex_world
        and changes = ?cs and ?s1.0 = "snd ?fp" and e = ex_unavailable and e' = ex_db_error,
        THEN conjunct1, THEN mp, OF conjI[OF fp conjI[OF _ db(2)]]]
    by (simp add: k c)
  have C: "map snd (connection_updates (snd (doProcessWebhook ex_env_partial_first ''u1'' ex_hdrs ex_world))) =
     [\<lparr>sync_status = ''partial_sync'', last_sync_at = 1700000000000\<rparr>]"
    using T [where env = ex_env_partial_first and u = "''u1''" and h = ex_hdrs and s = ex_world
        and changes = ?cs and ?s1.0 = "snd ?fq" and e = ex_unavailable and e' = ex_db_error,
        THEN conjunct1, THEN mp, OF conjI[OF fq conjI[OF _ db(3)]]]
    by (simp add: k c)
  have D: "map snd (connection_updates (snd (doProcessWebhook ex_env_down ''u1'' ex_hdrs ex_world))) =
     [\<lparr>sync_status = ''error'', last_sync_at = 1700000006000\<rparr>,
      \<lparr>sync_status = ''scheduled_full_sync'', last_sync_at = 1700000006000\<rparr>]"
    using T [where env = ex_env_down and u = "''u1''" and h = ex_hdrs and s = ex_world
        and changes = "[]" and ?s1.0 = "snd ?fd" and e = ex_unavailable and e' = ex_db_error,
        THEN conjunct2, THEN conjunct1, THEN mp, OF conjI[OF fd db(4)]]
    by (simp add: c db)
  have E: "fst (doProcessWebhook ex_env_down_refused ''u1'' ex_hdrs ex_world) = Inl ex_db_error \<and>
   connection_updates (snd (doProcessWebhook ex_env_down_refused ''u1'' ex_hdrs ex_world)) = []"
    using T [where env = ex_env_down_refused and u = "''u1''" and h = ex_hdrs and s = ex_world
        and changes = "[]" and ?s1.0 = "snd ?fr" and e = ex_unavailable and e' = ex_db_error,
        THEN conjunct2, THEN conjunct2, THEN mp, OF conjI[OF fr dr]]
    by (simp add: c)
  from A B C D E show ?thesis by simp
qed

text \<open>
  C1 as stated fails: a run that fetches one change, to which \<open>processCalendarChange\<close>
  answers \<open>true\<close>, writes the status \<open>synced\<close>, which is not \<open>active\<close>.
\<close>

theorem doProcessWebhook_writes_synced_not_active:
  "fst (fetchIncrementalChanges ex_env ''u1'' ex_hdrs ex_world) = Inr [ex_change] \<and>
   answers ex_env ''u1'' [ex_change]
     (snd (fetchIncrementalChanges ex_env ''u1'' ex_hdrs ex_world)) = [Inr True] \<and>
   map (sync_status \<circ> snd) (connection_updates (snd (doProcessWebhook ex_env ''u1'' ex_hdrs ex_world))) =
     [''synced''] \<and>
   sync_status (snd (last (connection_updates (snd (doProcessWebhook ex_env ''u1'' ex_hdrs ex_world))))) \<noteq>
     ''active''"
  by code_simp

text \<open>
  C3, as the code has it. After the fetch, a run gives the database no status update when
  there is nothing to apply; exactly one, \<open>synced\<close> or \<open>partial_sync\<close>, when there are
  changes and the database executes the update; and exactly two, \<open>error\<close> followed by
  \<open>scheduled_full_sync\<close>, when the fetch has thrown and the database executes both.
\<close>

theorem doProcessWebhook_status_writes:
  "(fetchIncrementalChanges env u h s = (Inr [], s1) \<longrightarrow>
      doProcessWebhook env u h s = (Inr (), s1)) \<and>
   (fetchIncrementalChanges env u h s = (Inr changes, s1) \<and> changes \<noteq> [] \<and>
    db_at env (length (db_log s1)) = None \<longrightarrow>
      (\<exists>st. st \<in> {''synced'', ''partial_sync''} \<and>
         db_log (snd (doProcessWebhook env u h s)) = db_log s1 @
           [UpdateConnection u \<lparr>sync_status = st, last_sync_at = clock s1\<rparr>])) \<and>
   (fetchIncrementalChanges env u h s = (Inl e, s1) \<and> db_at env (length (db_log s1)) = None \<and>
    db_at env (Suc (length (db_log s1))) = None \<longrightarrow>
      db_log (snd (doProcessWebhook env u h s)) = db_log s1 @
        [UpdateConnection u \<lparr>sync_status = ''error'', last_sync_at = clock s1\<rparr>,
         UpdateConnection u \<lparr>sync_status = ''scheduled_full_sync'', last_sync_at = clock s1\<rparr>])"
proof -
  have b: "\<exists>st. st \<in> {''synced'', ''partial_sync''} \<and>
         db_log (snd (doProcessWebhook env u h s)) = db_log s1 @
           [UpdateConnection u \<lparr>sync_status = st, last_sync_at = clock s1\<rparr>]"
    if f: "fetchIncrementalChanges env u h s = (Inr changes, s1)" and ne: "changes \<noteq> []"
      and ok: "db_at env (length (db_log s1)) = None"
  proof -
    from apply_changes_frame[of env u changes 0 s1] obtain k s2 where
      "apply_changes env u changes 0 s1 = (Inr k, s2)" by blast
    from doProcessWebhook_applied[OF f ne this ok] show ?thesis
      by (cases "k = length changes") simp_all
  qed
  show ?thesis
    using doProcessWebhook_empty[of env u h s s1] b doProcessWebhook_failed[of env u h s e s1]
    by auto
qed

theorem doProcessWebhook_status_writes_witness:
  "doProcessWebhook ex_env_quiet ''u1'' ex_hdrs ex_world =
     (Inr (), snd (fetchIncrementalChanges ex_env_quiet ''u1'' ex_hdrs ex_world)) \<and>
   length (db_log (snd (doProcessWebhook ex_env ''u1'' ex_hdrs ex_world))) =
     Suc (length (db_log (snd (fetchIncrementalChanges ex_env ''u1'' ex_hdrs ex_world)))) \<and>
   drop (length (db_log (snd (fetchIncrementalChanges ex_env_down ''u1'' ex_hdrs ex_world))))
     (db_log (snd (doProcessWebhook ex_env_down ''u1'' ex_hdrs ex_world))) =
     [UpdateConnection ''u1'' \<lparr>sync_status = ''error'', last_sync_at = 1700000006000\<rparr>,
      UpdateConnection ''u1'' \<lparr>sync_status = ''scheduled_full_sync'', last_sync_at = 1700000006000\<rparr>]"
proof -
  let ?fq = "fetchIncrementalChanges ex_env_quiet ''u1'' ex_hdrs ex_world"
  let ?f = "fetchIncrementalChanges ex_env ''u1'' ex_hdrs ex_world"
  let ?fd = "fetchIncrementalChanges ex_env_down ''u1'' ex_hdrs ex_world"
  have "fst ?fq = Inr []" by code_simp
  then have fq: "?fq = (Inr [], snd ?fq)" by (simp add: prod_eq_iff)
  have "fst ?f = Inr [ex_change]" by code_simp
  then have f: "?f = (Inr [ex_change], snd ?f)" by (simp add: prod_eq_iff)
  have "fst ?fd = Inl ex_unavailable" by code_simp
  then have fd: "?fd = (Inl ex_unavailable, snd ?fd)" by (simp add: prod_eq_iff)
  have db: "\<And>n. db_at ex_env n = None" "\<And>n. db_at ex_env_down n = None"
    by (simp_all add: ex_env_def ex_env_down_def)
  have c: "clock (snd ?fd) = 1700000006000" by code_simp
  have A: "doProcessWebhook ex_env_quiet ''u1'' ex_hdrs ex_world = (Inr (), snd ?fq)"
    using doProcessWebhook_status_writes [where env = ex_env_quiet and u = "''u1''" and h = ex_hdrs
        and s = ex_world and changes = "[]" and ?s1.0 = "snd ?fq" and e = ex_unavailable] fq
    by blast
  have "\<exists>st. db_log (snd (doProcessWebhook ex_env ''u1'' ex_hdrs ex_world)) = db_log (snd ?f) @
           [UpdateConnection ''u1'' \<lparr>sync_status = st, last_sync_at = clock (snd ?f)\<rparr>]"
    using doProcessWebhook_status_writes [where env = ex_env and u = "''u1''" and h = ex_hdrs
        and s = ex_world and changes = "[ex_change]" and ?s1.0 = "snd ?f" and e = ex_unavailable] f db(1)
    by blast
  then have B: "length (db_log (snd (doProcessWebhook ex_env ''u1'' ex_hdrs ex_world))) =
     Suc (length (db_log (snd ?f)))"
    by auto
  have C: "db_log (snd (doProcessWebhook ex_env_down ''u1'' ex_hdrs ex_world)) = db_log (snd ?fd) @
        [UpdateConnection ''u1'' \<lparr>sync_status = ''error'', last_sync_at = clock (snd ?fd)\<rparr>,
         UpdateConnection ''u1'' \<lparr>sync_status = ''scheduled_full_sync'', last_sync_at = clock (snd ?fd)\<rparr>]"
    using doProcessWebhook_status_writes [where env = ex_env_down and u = "''u1''" and h = ex_hdrs
        and s = ex_world and changes = "[]" and ?s1.0 = "snd ?fd" and e = ex_unavailable] fd db(2)
    by blast
  show ?thesis using A B unfolding C c by simp
qed

text \<open>
  C3 as stated fails: a run whose fetch is exhausted writes two statuses, and a run that
  finds no change writes none.
\<close>

theorem doProcessWebhook_writes_twice_or_never:
  "map (sync_status \<circ> snd)
     (connection_updates (snd (doProcessWebhook ex_env_down ''u1'' ex_hdrs ex_world))) =
     [''error'', ''scheduled_full_sync''] \<and>
   connection_updates (snd (doProcessWebhook ex_env_quiet ''u1'' ex_hdrs ex_world)) = []"
  by code_simp

subsection \<open>The registry of runs in flight\<close>

lemma set_map_remove1:
  assumes "distinct (map f xs)" and "x \<in> set xs"
  shows "set (map f (remove1 x xs)) = set (map f xs) - {f x}"
  using assms by (induction xs) auto

lemma distinct_map_remove1:
  "distinct (map f xs) \<Longrightarrow> distinct (map f (remove1 x xs))"
  by (metis distinct_map distinct_remove1 inj_on_subset set_remove1_subset)

lemma registry_inv_step:
  assumes "registry_inv d" and "dispatch_step d ev = Some d'"
  shows "registry_inv d'"
proof (cases ev)
  case (Trigger u h)
  from assms(1) have dist: "distinct (map run_key (in_flight d))"
    and q: "processingQueue d = set (map run_key (in_flight d))"
    by (simp_all add: registry_inv_def)
  show ?thesis
  proof (cases "processingKey u h \<in> processingQueue d")
    case True
    with Trigger assms show ?thesis by simp
  next
    case False
    with Trigger assms(2) have d': "d' = d\<lparr>in_flight := in_flight d @ [(u, h)],
                   processingQueue := insert (processingKey u h) (processingQueue d)\<rparr>"
      by simp
    from False q have "run_key (u, h) \<notin> set (map run_key (in_flight d))"
      by (simp add: run_key_def)
    with dist q show ?thesis unfolding d' registry_inv_def
      by (simp add: run_key_def)
  qed
next
  case (Settled u h outcome)
  with assms have m: "(u, h) \<in> set (in_flight d)"
    and d': "d' = d\<lparr>in_flight := remove1 (u, h) (in_flight d),
                     processingQueue := processingQueue d - {processingKey u h}\<rparr>"
    by (auto split: if_splits)
  from assms(1) have dist: "distinct (map run_key (in_flight d))"
    and q: "processingQueue d = set (map run_key (in_flight d))"
    by (simp_all add: registry_inv_def)
  from set_map_remove1[OF dist m] distinct_map_remove1[OF dist, of "(u, h)"] q d'
  show ?thesis by (simp add: registry_inv_def run_key_def)
qed

lemma registry_inv_run:
  "registry_inv d \<Longrightarrow> dispatch_run d evs = Some d' \<Longrightarrow> registry_inv d'"
proof (induction evs arbitrary: d)
  case Nil
  then show ?case by simp
next
  case (Cons ev evs)
  then show ?case by (auto split: option.splits dest: registry_inv_step)
qed

lemma registry_inv_init: "registry_inv dispatcher_init"
  by (simp add: registry_inv_def dispatcher_init_def)

lemma distinct_map_filter_le1:
  "distinct (map f xs) \<Longrightarrow> length (filter (\<lambda>x. f x = k) xs) \<le> 1"
proof (induction xs)
  case Nil
  then show ?case by simp
next
  case (Cons a xs)
  show ?case
  proof (cases "f a = k")
    case True
    from Cons.prems have "f a \<notin> f ` set xs" by simp
    with True have "\<forall>x\<in>set xs. f x \<noteq> k" by blast
    then have "filter (\<lambda>x. f x = k) xs = []" by (simp add: filter_empty_conv)
    with True show ?thesis by simp
  next
    case False
    with Cons show ?thesis by simp
  qed
qed

lemma settled_removes:
  assumes "registry_inv d" and "dispatch_step d (Settled u h outcome) = Some d'"
  shows "processingKey u h \<notin> processingQueue d' \<and> (u, h) \<notin> set (in_flight d')"
proof -
  from assms(2) have "processingKey u h \<notin> processingQueue d'" by (auto split: if_splits)
  moreover from registry_inv_step[OF assms] have "processingQueue d' = set (map run_key (in_flight d'))"
    by (simp add: registry_inv_def)
  ultimately show ?thesis by (force simp: run_key_def)
qed

text \<open>
  C2. In every state the handler reaches, at most one run is in flight for a processing
  key, hence for a user and a channel, and the keys of the registry are those of the runs
  in flight. A trigger that arrives while its key is registered leaves the state as it
  is: no run is started. When a run settles, by resolving or by throwing, its key is no
  longer registered and the run is no longer in flight.
\<close>

theorem one_run_per_processing_key:
  assumes "dispatch_run dispatcher_init evs = Some d"
  shows "(\<forall>k. length (filter (\<lambda>r. run_key r = k) (in_flight d)) \<le> 1) \<and>
         (\<forall>u c. length (filter (\<lambda>r. fst r = u \<and> channelId (snd r) = c) (in_flight d)) \<le> 1) \<and>
         processingQueue d = set (map run_key (in_flight d)) \<and>
         (\<forall>u h. processingKey u h \<in> processingQueue d \<longrightarrow> dispatch_step d (Trigger u h) = Some d) \<and>
         (\<forall>u h outcome d'. dispatch_step d (Settled u h outcome) = Some d' \<longrightarrow>
            processingKey u h \<notin> processingQueue d' \<and> (u, h) \<notin> set (in_flight d'))"
proof -
  from registry_inv_run[OF registry_inv_init assms] have inv: "registry_inv d" .
  then have dist: "distinct (map run_key (in_flight d))"
    and q: "processingQueue d = set (map run_key (in_flight d))"
    by (simp_all add: registry_inv_def)
  have a: "length (filter (\<lambda>r. run_key r = k) (in_flight d)) \<le> 1" for k
    using distinct_map_filter_le1[OF dist] .
  have b: "length (filter (\<lambda>r. fst r = u \<and> channelId (snd r) = c) (in_flight d)) \<le> 1" for u c
  proof -
    have "filter (\<lambda>r. fst r = u \<and> channelId (snd r) = c) (in_flight d) =
          filter (\<lambda>r. fst r = u \<and> channelId (snd r) = c)
            (filter (\<lambda>r. run_key r = u @ ''_'' @ template c) (in_flight d))"
      by (auto simp: run_key_def processingKey_def intro: filter_cong)
    also have "length \<dots> \<le> length (filter (\<lambda>r. run_key r = u @ ''_'' @ template c) (in_flight d))"
      by (rule length_filter_le)
    finally show ?thesis using a[of "u @ ''_'' @ template c"] by simp
  qed
  have c: "dispatch_step d (Trigger u h) = Some d" if "processingKey u h \<in> processingQueue d" for u h
    using that by simp
  from a b q c settled_removes[OF inv] show ?thesis by blast
qed

theorem one_run_per_processing_key_witness:
  "dispatch_run dispatcher_init [Trigger ''u1'' ex_hdrs] = Some ex_registry \<and>
   dispatch_step ex_registry (Trigger ''u1'' ex_hdrs) = Some ex_registry \<and>
   dispatch_step ex_registry (Settled ''u1'' ex_hdrs (Some ex_unavailable)) =
     Some \<lparr>processingQueue = {}, in_flight = []\<rparr> \<and>
   dispatch_step ex_registry (Settled ''u1'' ex_hdrs None) =
     Some \<lparr>processingQueue = {}, in_flight = []\<rparr> \<and>
   length (filter (\<lambda>r. run_key r = ''u1_ch-1'') (in_flight ex_registry)) \<le> 1"
proof -
  have r: "dispatch_run dispatcher_init [Trigger ''u1'' ex_hdrs] = Some ex_registry"
    by (simp add: dispatcher_init_def ex_registry_def processingKey_def ex_hdrs_def)
  have k: "processingKey ''u1'' ex_hdrs \<in> processingQueue ex_registry"
    by (simp add: ex_registry_def processingKey_def ex_hdrs_def)
  from one_run_per_processing_key[OF r] k
  have a: "dispatch_step ex_registry (Trigger ''u1'' ex_hdrs) = Some ex_registry"
    and b: "length (filter (\<lambda>r. run_key r = ''u1_ch-1'') (in_flight ex_registry)) \<le> 1"
    by blast+
  have c: "dispatch_step ex_registry (Settled ''u1'' ex_hdrs outcome) =
             Some \<lparr>processingQueue = {}, in_flight = []\<rparr>" for outcome
    by (simp add: ex_registry_def processingKey_def ex_hdrs_def)
  from r a b c show ?thesis by simp
qed

subsection \<open>The full synchronisation\<close>

lemma events_list_simps [simp]:
  "fst (events_list env p s) = events_list_at env (length (list_calls s)) p"
  "snd (events_list env p s) = s\<lparr>list_calls := list_calls s @ [p]\<rparr>"
  by (simp_all add: events_list_def)

lemma processCalendarChange_created_request:
  "http_log (snd (processCalendarChange env u ev Created s)) = http_log s @ created_request env u ev"
  by (auto simp: processCalendarChange_def processCalendarChange_body_def convertEventToMemory_def
      storeInMemoryVault_def http_fetch_def created_request_def split: sum.splits prod.splits)

lemma apply_created_effect:
  "\<exists>tot' s'. apply_created env u evs tot s = ((None, tot'), s') \<and>
     processed s' = processed s @ map (\<lambda>ev. (u, ev, Created)) evs \<and>
     http_log s' = http_log s @ concat (map (created_request env u) evs) \<and>
     list_calls s' = list_calls s \<and> db_log s' = db_log s \<and> sync_tokens s' = sync_tokens s \<and>
     clock s' = clock s \<and> connection_updates s' = connection_updates s"
proof (induction evs arbitrary: tot s)
  case Nil
  then show ?case by simp
next
  case (Cons ev evs)
  obtain r s1 where p: "processCalendarChange env u ev Created s = (r, s1)"
    by (cases "processCalendarChange env u ev Created s")
  from processCalendarChange_frame[OF p] obtain b where r: "r = Inr b" and
    fr: "db_log s1 = db_log s" "connection_updates s1 = connection_updates s" "clock s1 = clock s"
      "sync_tokens s1 = sync_tokens s" "list_calls s1 = list_calls s"
      "processed s1 = processed s @ [(u, ev, Created)]"
    by auto
  from processCalendarChange_created_request[of env u ev s] p
  have h: "http_log s1 = http_log s @ created_request env u ev" by simp
  from Cons.IH[of "if b then Suc tot else tot" s1] obtain tot' s' where
    "apply_created env u evs (if b then Suc tot else tot) s1 = ((None, tot'), s')"
    "processed s' = processed s1 @ map (\<lambda>ev. (u, ev, Created)) evs"
    "http_log s' = http_log s1 @ concat (map (created_request env u) evs)"
    "list_calls s' = list_calls s1" "db_log s' = db_log s1" "sync_tokens s' = sync_tokens s1"
    "clock s' = clock s1" "connection_updates s' = connection_updates s1"
    by blast
  then show ?case using p r fr h by (auto split: if_splits)
qed

lemma sync_pages_open:
  assumes "pages_open env (length (list_calls s)) c lo hi tok pages"
  shows "\<exists>tot' s'.
     sync_pages (length pages + f) env u c lo hi tok tot s =
       sync_pages f env u c lo hi (token_after tok pages) tot' s' \<and>
     processed s' = processed s @ map (\<lambda>ev. (u, ev, Created)) (concat (map response_events pages)) \<and>
     http_log s' = http_log s @
       concat (map (created_request env u) (concat (map response_events pages))) \<and>
     list_calls s' = list_calls s @ page_requests c lo hi tok pages \<and>
     db_log s' = db_log s \<and> sync_tokens s' = sync_tokens s \<and> clock s' = clock s \<and>
     connection_updates s' = connection_updates s"
  using assms
proof (induction pages arbitrary: s tok tot)
  case Nil
  show ?case by (rule exI[of _ tot], rule exI[of _ s]) simp
next
  case (Cons r rs)
  let ?p = "page_request c lo hi tok"
  let ?s1 = "s\<lparr>list_calls := list_calls s @ [?p]\<rparr>"
  from Cons.prems have resp: "events_list_at env (length (list_calls s)) ?p = Inr r"
    and t: "truthy (nextPageToken r)"
    and rest: "pages_open env (Suc (length (list_calls s))) c lo hi (Some (template (nextPageToken r))) rs"
    by simp_all
  from apply_created_effect[of env u "response_events r" tot ?s1] obtain tot1 s2 where
    ac: "apply_created env u (response_events r) tot ?s1 = ((None, tot1), s2)"
    and fr: "processed s2 = processed s @ map (\<lambda>ev. (u, ev, Created)) (response_events r)"
      "http_log s2 = http_log s @ concat (map (created_request env u) (response_events r))"
      "list_calls s2 = list_calls s @ [?p]" "db_log s2 = db_log s"
      "sync_tokens s2 = sync_tokens s" "clock s2 = clock s" "connection_updates s2 = connection_updates s"
    by auto
  have step: "sync_pages (length (r # rs) + f) env u c lo hi tok tot s =
      sync_pages (length rs + f) env u c lo hi (Some (template (nextPageToken r))) tot1 s2"
    using resp t ac by (simp add: events_list_def page_request_def)
  from rest fr(3) have "pages_open env (length (list_calls s2)) c lo hi
      (Some (template (nextPageToken r))) rs" by simp
  from Cons.IH[OF this, of tot1] obtain tot' s' where
    "sync_pages (length rs + f) env u c lo hi (Some (template (nextPageToken r))) tot1 s2 =
       sync_pages f env u c lo hi (token_after (Some (template (nextPageToken r))) rs) tot' s'"
    "processed s' = processed s2 @ map (\<lambda>ev. (u, ev, Created)) (concat (map response_events rs))"
    "http_log s' = http_log s2 @
       concat (map (created_request env u) (concat (map response_events rs)))"
    "list_calls s' = list_calls s2 @ page_requests c lo hi (Some (template (nextPageToken r))) rs"
    "db_log s' = db_log s2" "sync_tokens s' = sync_tokens s2" "clock s' = clock s2"
    "connection_updates s' = connection_updates s2"
    by blast
  then show ?case using step fr
    by (intro exI[of _ tot'] exI[of _ s']) simp
qed

lemma length_page_requests [simp]:
  "length (page_requests c lo hi tok pages) = length pages"
  by (induction pages arbitrary: tok) simp_all

lemma page_requests_snoc:
  "page_requests c lo hi tok (pages @ [r]) =
     page_requests c lo hi tok pages @ [page_request c lo hi (token_after tok pages)]"
  by (induction pages arbitrary: tok) simp_all

lemma sync_pages_closed:
  assumes "pages_closed env (length (list_calls s)) c lo hi pages" and "length pages \<le> fuel"
  shows "\<exists>tot' s'.
     sync_pages fuel env u c lo hi None tot s = Some ((None, tot'), s') \<and>
     processed s' = processed s @ map (\<lambda>ev. (u, ev, Created)) (concat (map response_events pages)) \<and>
     http_log s' = http_log s @
       concat (map (created_request env u) (concat (map response_events pages))) \<and>
     list_calls s' = list_calls s @ page_requests c lo hi None pages \<and>
     db_log s' = db_log s \<and> sync_tokens s' = sync_tokens s \<and> clock s' = clock s \<and>
     connection_updates s' = connection_updates s"
proof -
  let ?init = "butlast pages" and ?r = "last pages"
  from assms(1) have ne: "pages \<noteq> []"
    and op: "pages_open env (length (list_calls s)) c lo hi None ?init"
    and resp: "events_list_at env (length (list_calls s) + length ?init)
        (page_request c lo hi (token_after None ?init)) = Inr ?r"
    and nt: "\<not> truthy (nextPageToken ?r)"
    by (simp_all add: pages_closed_def)
  from ne have pg: "pages = ?init @ [?r]" by simp
  define f where "f = fuel - length pages"
  from ne assms(2) have fuel: "fuel = length ?init + Suc f"
    by (cases pages) (simp_all add: f_def)
  from sync_pages_open[OF op, of "Suc f" u tot] obtain tot1 s1 where
    eq: "sync_pages (length ?init + Suc f) env u c lo hi None tot s =
       sync_pages (Suc f) env u c lo hi (token_after None ?init) tot1 s1"
    and fr: "processed s1 = processed s @ map (\<lambda>ev. (u, ev, Created)) (concat (map response_events ?init))"
     "http_log s1 = http_log s @
       concat (map (created_request env u) (concat (map response_events ?init)))"
     "list_calls s1 = list_calls s @ page_requests c lo hi None ?init"
     "db_log s1 = db_log s" "sync_tokens s1 = sync_tokens s" "clock s1 = clock s"
     "connection_updates s1 = connection_updates s"
    by blast
  let ?p = "page_request c lo hi (token_after None ?init)"
  let ?s2 = "s1\<lparr>list_calls := list_calls s1 @ [?p]\<rparr>"
  from apply_created_effect[of env u "response_events ?r" tot1 ?s2] obtain tot' s' where
    ac: "apply_created env u (response_events ?r) tot1 ?s2 = ((None, tot'), s')"
    and fr2: "processed s' = processed s1 @ map (\<lambda>ev. (u, ev, Created)) (response_events ?r)"
      "http_log s' = http_log s1 @ concat (map (created_request env u) (response_events ?r))"
      "list_calls s' = list_calls s1 @ [?p]" "db_log s' = db_log s1"
      "sync_tokens s' = sync_tokens s1" "clock s' = clock s1" "connection_updates s' = connection_updates s1"
    by auto
  from resp fr(3) have "events_list_at env (length (list_calls s1)) ?p = Inr ?r" by simp
  then have "sync_pages (Suc f) env u c lo hi (token_after None ?init) tot1 s1 = Some ((None, tot'), s')"
    using nt ac by (simp add: events_list_def page_request_def)
  with eq fuel have res: "sync_pages fuel env u c lo hi None tot s = Some ((None, tot'), s')" by simp
  have ev: "concat (map response_events pages) =
      concat (map response_events ?init) @ response_events ?r"
    by (subst pg) simp
  have rq: "page_requests c lo hi None pages = page_requests c lo hi None ?init @ [?p]"
    by (subst pg) (simp add: page_requests_snoc)
  show ?thesis using res fr fr2 ev rq
    by (intro exI[of _ tot'] exI[of _ s']) simp
qed

lemma sync_pages_fails:
  assumes "pages_open env (length (list_calls s)) c lo hi None pages"
    and "events_list_at env (length (list_calls s) + length pages)
           (page_request c lo hi (token_after None pages)) = Inl e"
    and "length pages < fuel"
  shows "\<exists>tot' s'.
     sync_pages fuel env u c lo hi None tot s = Some ((Some e, tot'), s') \<and>
     processed s' = processed s @ map (\<lambda>ev. (u, ev, Created)) (concat (map response_events pages)) \<and>
     http_log s' = http_log s @
       concat (map (created_request env u) (concat (map response_events pages))) \<and>
     list_calls s' = list_calls s @ page_requests c lo hi None pages @
       [page_request c lo hi (token_after None pages)] \<and>
     db_log s' = db_log s \<and> sync_tokens s' = sync_tokens s \<and> clock s' = clock s \<and>
     connection_updates s' = connection_updates s"
proof -
  define f where "f = fuel - Suc (length pages)"
  from assms(3) have fuel: "fuel = length pages + Suc f"
    by (simp add: f_def)
  from sync_pages_open[OF assms(1), of "Suc f" u tot] obtain tot1 s1 where
    eq: "sync_pages (length pages + Suc f) env u c lo hi None tot s =
       sync_pages (Suc f) env u c lo hi (token_after None pages) tot1 s1"
    and fr: "processed s1 = processed s @ map (\<lambda>ev. (u, ev, Created)) (concat (map response_events pages))"
     "http_log s1 = http_log s @
       concat (map (created_request env u) (concat (map response_events pages)))"
     "list_calls s1 = list_calls s @ page_requests c lo hi None pages"
     "db_log s1 = db_log s" "sync_tokens s1 = sync_tokens s" "clock s1 = clock s"
     "connection_updates s1 = connection_updates s"
    by blast
  let ?p = "page_request c lo hi (token_after None pages)"
  from assms(2) fr(3) have "events_list_at env (length (list_calls s1)) ?p = Inl e" by simp
  then have "sync_pages (Suc f) env u c lo hi (token_after None pages) tot1 s1 =
      Some ((Some e, tot1), s1\<lparr>list_calls := list_calls s1 @ [?p]\<rparr>)"
    by (simp add: events_list_def page_request_def)
  with eq fuel fr show ?thesis
    by (intro exI[of _ tot1] exI[of _ "s1\<lparr>list_calls := list_calls s1 @ [?p]\<rparr>"]) simp
qed

lemma store_after_append:
  "store_after env n (xs @ ys) m = store_after env (n + length xs) ys (store_after env n xs m)"
  by (induction env n xs m rule: store_after.induct) simp_all

lemma length_plan_requests [simp]:
  "length (plan_requests lo hi p) = Suc (length (plan_pages (snd p)))"
  by (cases "(lo, hi, p)" rule: plan_requests.cases) simp_all

lemma sync_calendar_plan:
  assumes pl: "plan_from env (length (list_calls s)) lo hi (c, plan)"
    and lo: "lo = addDays env (clock s) (- 30)" and hi: "hi = addDays env (clock s) 365"
    and fuel: "length (plan_pages plan) < fuel"
  shows "\<exists>e tot' s'. sync_calendar fuel env u c tot s = Some ((e, tot'), s') \<and>
           plans_done env u lo hi [(c, plan)] s s'"
proof (cases plan)
  case (Healthy pages r)
  with pl have cl: "pages_closed env (length (list_calls s)) c lo hi pages"
    and resp: "events_list_at env (length (list_calls s) + length pages) (refresh_request c) = Inr r"
    by simp_all
  from fuel Healthy have "length pages \<le> fuel" by simp
  from sync_pages_closed[OF cl this, of u tot] obtain tot1 s1 where
    sp: "sync_pages fuel env u c lo hi None tot s = Some ((None, tot1), s1)"
    and fr: "processed s1 = processed s @ map (\<lambda>ev. (u, ev, Created)) (concat (map response_events pages))"
     "http_log s1 = http_log s @
       concat (map (created_request env u) (concat (map response_events pages)))"
     "list_calls s1 = list_calls s @ page_requests c lo hi None pages"
     "db_log s1 = db_log s" "sync_tokens s1 = sync_tokens s" "clock s1 = clock s"
     "connection_updates s1 = connection_updates s"
    by blast
  from resp fr(3) have "events_list_at env (length (list_calls s1)) (refresh_request c) = Inr r"
    by simp
  then show ?thesis using sp fr Healthy lo hi
    by (auto simp: sync_calendar_def events_list_def refresh_request_def plans_done_def
        plan_events_def updateSyncToken_effect)
next
  case (Refresh_fails pages e)
  with pl have cl: "pages_closed env (length (list_calls s)) c lo hi pages"
    and resp: "events_list_at env (length (list_calls s) + length pages) (refresh_request c) = Inl e"
    by simp_all
  from fuel Refresh_fails have "length pages \<le> fuel" by simp
  from sync_pages_closed[OF cl this, of u tot] obtain tot1 s1 where
    sp: "sync_pages fuel env u c lo hi None tot s = Some ((None, tot1), s1)"
    and fr: "processed s1 = processed s @ map (\<lambda>ev. (u, ev, Created)) (concat (map response_events pages))"
     "http_log s1 = http_log s @
       concat (map (created_request env u) (concat (map response_events pages)))"
     "list_calls s1 = list_calls s @ page_requests c lo hi None pages"
     "db_log s1 = db_log s" "sync_tokens s1 = sync_tokens s" "clock s1 = clock s"
     "connection_updates s1 = connection_updates s"
    by blast
  from resp fr(3) have "events_list_at env (length (list_calls s1)) (refresh_request c) = Inl e"
    by simp
  then show ?thesis using sp fr Refresh_fails lo hi
    by (auto simp: sync_calendar_def events_list_def refresh_request_def plans_done_def
        plan_events_def)
next
  case (Page_fails pages e)
  with pl have op: "pages_open env (length (list_calls s)) c lo hi None pages"
    and resp: "events_list_at env (length (list_calls s) + length pages)
           (page_request c lo hi (token_after None pages)) = Inl e"
    by simp_all
  from fuel Page_fails have "length pages < fuel" by simp
  from sync_pages_fails[OF op resp this, of u tot] obtain tot1 s1 where
    sp: "sync_pages fuel env u c lo hi None tot s = Some ((Some e, tot1), s1)"
    and fr: "processed s1 = processed s @ map (\<lambda>ev. (u, ev, Created)) (concat (map response_events pages))"
     "http_log s1 = http_log s @
       concat (map (created_request env u) (concat (map response_events pages)))"
     "list_calls s1 = list_calls s @ page_requests c lo hi None pages @
       [page_request c lo hi (token_after None pages)]"
     "db_log s1 = db_log s" "sync_tokens s1 = sync_tokens s" "clock s1 = clock s"
     "connection_updates s1 = connection_updates s"
    by blast
  show ?thesis using sp fr Page_fails lo hi
    by (auto simp: sync_calendar_def plans_done_def plan_events_def)
qed

lemma plans_done_trans:
  assumes "plans_done env u lo hi [p] s s1" and "plans_done env u lo hi ps s1 s'"
  shows "plans_done env u lo hi (p # ps) s s'"
  using assms by (simp add: plans_done_def store_after_append)

lemma sync_calendars_plans:
  assumes "plans_from env (length (list_calls s)) lo hi plans"
    and "lo = addDays env (clock s) (- 30)" and "hi = addDays env (clock s) 365"
    and "\<forall>p\<in>set plans. length (plan_pages (snd p)) < fuel"
  shows "\<exists>tot' s'. sync_calendars fuel env u (map fst plans) tot s = Some (tot', s') \<and>
           plans_done env u lo hi plans s s'"
  using assms
proof (induction plans arbitrary: s tot)
  case Nil
  then show ?case by (simp add: plans_done_def)
next
  case (Cons p ps)
  obtain c plan where p: "p = (c, plan)" by (cases p)
  from Cons.prems(1) p have pl: "plan_from env (length (list_calls s)) lo hi (c, plan)"
    and rest: "plans_from env (Suc (length (list_calls s) + length (plan_pages plan))) lo hi ps"
    by simp_all
  from Cons.prems(4) p have f1: "length (plan_pages plan) < fuel"
    and f2: "\<forall>p\<in>set ps. length (plan_pages (snd p)) < fuel"
    by simp_all
  from sync_calendar_plan[OF pl Cons.prems(2,3) f1, of u tot] obtain e tot1 s1 where
    sc: "sync_calendar fuel env u c tot s = Some ((e, tot1), s1)"
    and d1: "plans_done env u lo hi [(c, plan)] s s1"
    by blast
  from d1 have l1: "length (list_calls s1) = Suc (length (list_calls s) + length (plan_pages plan))"
    and c1: "clock s1 = clock s"
    by (simp_all add: plans_done_def)
  from rest l1 have "plans_from env (length (list_calls s1)) lo hi ps" by simp
  from Cons.IH[OF this _ _ f2, of tot1] Cons.prems(2,3) c1 obtain tot' s' where
    r: "sync_calendars fuel env u (map fst ps) tot1 s1 = Some (tot', s')"
    and d2: "plans_done env u lo hi ps s1 s'"
    by auto
  from sc r p have "sync_calendars fuel env u (map fst (p # ps)) tot s = Some (tot', s')" by simp
  with plans_done_trans[OF d1 d2] p show ?case by auto
qed

text \<open>
  C8. The provider's answers to a full synchronisation are given as one plan for each
  calendar of the user's calendar list, in the order of the list: the pages it answers, each
  but the last naming a next page, followed by its answer to the token refresh, or an error in
  place of a page or of the refresh. For every such list of plans, whatever the number of
  calendars and of pages, \<open>performFullSync\<close> returns and, over the whole run,
  \<^item> every event of every answered page of every calendar has been processed as a created one,
    in order, and the vault has been sent one \<open>POST /memories\<close> for each event whose
    conversion did not throw (the 260 events of a calendar of 250 + 10 among them);
  \<^item> the provider has been asked, for each calendar, one page after the other with
    \<open>timeMin\<close> the date that \<open>setDate\<close> puts 30 days before the time of the run and
    \<open>timeMax\<close> the date it puts 365 days after, single events ordered by start time, 250 a
    page, the first request without a page token and each following one with the token the
    page before named, and then, when no page failed, exactly once more with
    \<open>maxResults = 1\<close> and neither window nor token;
  \<^item> the token of each refresh that names one has been upserted, and is stored whenever the
    database executes the statement;
  \<^item> a calendar whose page or refresh fails is followed by the requests of the next calendar:
    the failure ends that calendar only;
  \<^item> at the end the status \<open>synced\<close> is written, and the run answers true when the
    database executes this update.
\<close>

theorem performFullSync_every_calendar:
  assumes "getAuthenticatedClient env u s = (True, sa)"
    and "calendar_list_at env (calendar_list_calls sa) = Inr (Some (map fst plans))"
    and "plans_from env (length (list_calls s)) lo hi plans"
    and "lo = addDays env (clock s) (- 30)" and "hi = addDays env (clock s) 365"
    and "\<forall>p\<in>set plans. length (plan_pages (snd p)) < fuel"
  shows "\<exists>r s'. performFullSync fuel env u s = Some (r, s') \<and>
     processed s' = processed s @ map (\<lambda>ev. (u, ev, Created)) (concat (map plan_events plans)) \<and>
     http_log s' = http_log s @
       concat (map (created_request env u) (concat (map plan_events plans))) \<and>
     list_calls s' = list_calls s @ concat (map (plan_requests lo hi) plans) \<and>
     sync_tokens s' =
       store_after env (length (db_log sa)) (concat (map (plan_upserts u) plans)) (sync_tokens s) \<and>
     db_log s' = db_log sa @ concat (map (plan_upserts u) plans) @
       UpdateConnection u \<lparr>sync_status = ''synced'', last_sync_at = clock s\<rparr> #
       (if db_at env (length (db_log sa) + length (concat (map (plan_upserts u) plans))) = None
        then [] else [UpdateConnection u \<lparr>sync_status = ''error'', last_sync_at = clock s\<rparr>]) \<and>
     (db_at env (length (db_log sa) + length (concat (map (plan_upserts u) plans))) = None \<longrightarrow>
        r = Inr True \<and>
        connection_updates s' = connection_updates sa @
          [(u, \<lparr>sync_status = ''synced'', last_sync_at = clock s\<rparr>)])"
proof -
  let ?sb = "sa\<lparr>calendar_list_calls := Suc (calendar_list_calls sa)\<rparr>"
  from getAuthenticatedClient_frame[OF assms(1)] have fa:
    "sync_tokens sa = sync_tokens s" "list_calls sa = list_calls s" "clock sa = clock s"
    "http_log sa = http_log s" "processed sa = processed s"
    by simp_all
  have cl: "calendarList_list env sa = (Inr (Some (map fst plans)), ?sb)"
    using assms(2) by (simp add: calendarList_list_def)
  have "plans_from env (length (list_calls ?sb)) lo hi plans" using assms(3) fa by simp
  from sync_calendars_plans[OF this _ _ assms(6), of u 0] assms(4,5) fa obtain tot sc where
    sc: "sync_calendars fuel env u (map fst plans) 0 ?sb = Some (tot, sc)"
    and d: "plans_done env u lo hi plans ?sb sc"
    by auto
  from d fa have fr:
    "processed sc = processed s @ map (\<lambda>ev. (u, ev, Created)) (concat (map plan_events plans))"
    "http_log sc = http_log s @
       concat (map (created_request env u) (concat (map plan_events plans)))"
    "list_calls sc = list_calls s @ concat (map (plan_requests lo hi) plans)"
    "db_log sc = db_log sa @ concat (map (plan_upserts u) plans)"
    "sync_tokens sc =
       store_after env (length (db_log sa)) (concat (map (plan_upserts u) plans)) (sync_tokens s)"
    "clock sc = clock s" "connection_updates sc = connection_updates sa"
    by (simp_all add: plans_done_def)
  show ?thesis
  proof (cases "db_at env (length (db_log sc))")
    case None
    with assms(1) cl sc fr show ?thesis
      by (simp add: performFullSync_def performFullSync_body_def updateCalendarConnection_def
          query_def)
  next
    case (Some e)
    with assms(1) cl sc fr show ?thesis
      by (auto simp: performFullSync_def performFullSync_body_def updateCalendarConnection_def
          query_def split: option.splits)
  qed
qed

theorem performFullSync_every_calendar_witness:
  "fst (getAuthenticatedClient ex_env_three ''u1'' ex_world) = True \<and>
   plans_from ex_env_three 0 1697408000000 1731536000000 ex_plans \<and>
   (\<exists>s'. performFullSync 3 ex_env_three ''u1'' ex_world = Some (Inr True, s') \<and>
      length (processed s') = 261 \<and>
      drop 260 (processed s') = [(''u1'', ex_event ''h1'', Created)] \<and>
      map req_verb (http_log s') = replicate 261 POST \<and>
      map calendarId (list_calls s') =
        [''work'', ''primary'', ''primary'', ''primary'', ''home'', ''home''] \<and>
      map pageToken (list_calls s') = [None, None, Some ''page-2'', None, None, None] \<and>
      map timeMin (list_calls s') =
        [Some 1697408000000, Some 1697408000000, Some 1697408000000, None,
         Some 1697408000000, None] \<and>
      map timeMax (list_calls s') =
        [Some 1731536000000, Some 1731536000000, Some 1731536000000, None,
         Some 1731536000000, None] \<and>
      map maxResults (list_calls s') = [250, 250, 250, 1, 250, 1] \<and>
      sync_tokens s' (''u1'', ''work'') = None \<and>
      sync_tokens s' (''u1'', ''primary'') = Some (Some ''tok-9'') \<and>
      sync_tokens s' (''u1'', ''home'') = Some (Some ''tok-h'') \<and>
      connection_updates s' = [(''u1'', \<lparr>sync_status = ''synced'', last_sync_at = 1700000000000\<rparr>)])"
proof -
  let ?sa = "snd (getAuthenticatedClient ex_env_three ''u1'' ex_world)"
  have a: "fst (getAuthenticatedClient ex_env_three ''u1'' ex_world) = True" by code_simp
  hence auth: "getAuthenticatedClient ex_env_three ''u1'' ex_world = (True, ?sa)"
    by (simp add: prod_eq_iff)
  have sa: "connection_updates ?sa = []" by code_simp
  have cl: "calendar_list_at ex_env_three (calendar_list_calls ?sa) = Inr (Some (map fst ex_plans))"
    by (simp add: ex_env_three_def ex_plans_def)
  have lo: "addDays ex_env_three (clock ex_world) (- 30) = 1697408000000"
    and hi: "addDays ex_env_three (clock ex_world) 365 = 1731536000000"
    by (simp_all add: ex_env_three_def ex_env_def ex_world_def)
  have pl: "plans_from ex_env_three 0 1697408000000 1731536000000 ex_plans"
    by (simp add: ex_plans_def ex_env_three_def pages_closed_def ex_page1_def ex_page2_def
        ex_refresh_def ex_page_home_def ex_refresh_home_def)
  hence pl': "plans_from ex_env_three (length (list_calls ex_world)) 1697408000000 1731536000000
      ex_plans"
    by (simp add: ex_world_def)
  have fu: "\<forall>p\<in>set ex_plans. length (plan_pages (snd p)) < 3"
    by (simp add: ex_plans_def)
  have db: "\<And>n. db_at ex_env_three n = None" by (simp add: ex_env_three_def ex_env_def)
  have cr: "\<And>ev. map req_verb (created_request ex_env_three ''u1'' ev) = [POST]"
    by (simp add: created_request_def ex_env_three_def ex_env_def split: sum.split)
  have evs: "length (concat (map plan_events ex_plans)) = 261"
    by (simp add: ex_plans_def plan_events_def response_events_def ex_page1_def ex_page2_def
        ex_page_home_def ex_numbered_def)
  have lst: "drop 260 (concat (map plan_events ex_plans)) = [ex_event ''h1'']"
    by (simp add: ex_plans_def plan_events_def response_events_def ex_page1_def ex_page2_def
        ex_page_home_def)
  from performFullSync_every_calendar[OF auth cl pl' lo[symmetric] hi[symmetric] fu]
  obtain r s' where
    run: "performFullSync 3 ex_env_three ''u1'' ex_world = Some (r, s')"
    and p: "processed s' = processed ex_world @
        map (\<lambda>ev. (''u1'', ev, Created)) (concat (map plan_events ex_plans))"
    and h: "http_log s' = http_log ex_world @
        concat (map (created_request ex_env_three ''u1'') (concat (map plan_events ex_plans)))"
    and l: "list_calls s' = list_calls ex_world @
        concat (map (plan_requests 1697408000000 1731536000000) ex_plans)"
    and t: "sync_tokens s' = store_after ex_env_three (length (db_log ?sa))
        (concat (map (plan_upserts ''u1'') ex_plans)) (sync_tokens ex_world)"
    and d: "db_log s' = db_log ?sa @ concat (map (plan_upserts ''u1'') ex_plans) @
        UpdateConnection ''u1'' \<lparr>sync_status = ''synced'', last_sync_at = clock ex_world\<rparr> #
        (if db_at ex_env_three
              (length (db_log ?sa) + length (concat (map (plan_upserts ''u1'') ex_plans))) = None
         then []
         else [UpdateConnection ''u1''
                 \<lparr>sync_status = ''error'', last_sync_at = clock ex_world\<rparr>])"
    and c0: "db_at ex_env_three
          (length (db_log ?sa) + length (concat (map (plan_upserts ''u1'') ex_plans))) = None \<longrightarrow>
        r = Inr True \<and> connection_updates s' = connection_updates ?sa @
          [(''u1'', \<lparr>sync_status = ''synced'', last_sync_at = clock ex_world\<rparr>)]"
    by (elim exE conjE) (rule that)
  from c0 db have c: "r = Inr True \<and> connection_updates s' = connection_updates ?sa @
        [(''u1'', \<lparr>sync_status = ''synced'', last_sync_at = clock ex_world\<rparr>)]"
    by simp
  have 1: "length (processed s') = 261" using p evs by (simp add: ex_world_def)
  have 2: "drop 260 (processed s') = [(''u1'', ex_event ''h1'', Created)]"
    using p lst by (simp add: ex_world_def drop_map)
  have "\<And>evs. map req_verb (concat (map (created_request ex_env_three ''u1'') evs)) =
      replicate (length evs) POST"
  proof -
    fix evs
    show "map req_verb (concat (map (created_request ex_env_three ''u1'') evs)) =
        replicate (length evs) POST"
      by (induction evs) (simp_all add: cr)
  qed
  hence 3: "map req_verb (http_log s') = replicate 261 POST"
    using h evs by (simp add: ex_world_def)
  have 4: "list_calls s' = concat (map (plan_requests 1697408000000 1731536000000) ex_plans)"
    using l by (simp add: ex_world_def)
  have 5: "sync_tokens s' (''u1'', ''work'') = None"
    "sync_tokens s' (''u1'', ''primary'') = Some (Some ''tok-9'')"
    "sync_tokens s' (''u1'', ''home'') = Some (Some ''tok-h'')"
    using t db by (simp_all add: ex_plans_def ex_refresh_def ex_refresh_home_def ex_world_def)
  show ?thesis
    using a pl run c 1 2 3 5 sa
    by (simp add: 4 ex_plans_def page_request_def refresh_request_def ex_world_def
        ex_page1_def ex_page2_def ex_page_home_def)
qed

end
